theory Spec2Isabelle
  imports Complex_Main "HOL-Library.Word" "HOL-Library.AList" "HOL-Library.Sublist"
begin

section \<open>JavaScript values and strings\<close>

text \<open>
  Strings are byte strings (\<^typ>\<open>string\<close>); the functions of the JavaScript string
  library that the proxy scripts call are defined here on them. Case folding is the
  ASCII one: the patterns of the scripts are ASCII, and no character outside ASCII folds
  to an ASCII letter of those patterns.
\<close>

datatype jsval = JUndefined | JNull | JString string

text \<open>\<open>!v\<close> for a value that is undefined, null or a string.\<close>

fun falsy :: "jsval \<Rightarrow> bool" where
  "falsy JUndefined = True"
| "falsy JNull = True"
| "falsy (JString s) = (s = [])"

definition toLowerCase_char :: "char \<Rightarrow> char" where
  "toLowerCase_char c =
     (let n = (of_char c :: nat) in if 65 \<le> n \<and> n \<le> 90 then char_of (n + 32) else c)"

definition toLowerCase :: "string \<Rightarrow> string" where
  "toLowerCase s = map toLowerCase_char s"

definition startsWith :: "string \<Rightarrow> string \<Rightarrow> bool" where
  "startsWith s p = prefix p s"

definition includes_str :: "string \<Rightarrow> string \<Rightarrow> bool" where
  "includes_str s p = sublist p s"

text \<open>\<open>s.split(sep)\<close> for a separator of one character: never the empty list.\<close>

fun split :: "char \<Rightarrow> string \<Rightarrow> string list" where
  "split sep [] = [[]]"
| "split sep (c # cs) =
     (if c = sep then [] # split sep cs
      else (case split sep cs of [] \<Rightarrow> [[c]] | p # ps \<Rightarrow> (c # p) # ps))"

text \<open>\<open>s.replace(pat, rep)\<close> for a string pattern and a replacement without \<open>$\<close>:
  the first occurrence is replaced.\<close>

fun replace :: "string \<Rightarrow> string \<Rightarrow> string \<Rightarrow> string" where
  "replace pat rep [] = (if pat = [] then rep else [])"
| "replace pat rep (c # cs) =
     (if prefix pat (c # cs) then rep @ drop (length pat) (c # cs)
      else c # replace pat rep cs)"

subsection \<open>\<open>Number(string)\<close>\<close>

text \<open>
  \<open>Number\<close> is applied by the guard to the pieces of \<open>ip.split('.')\<close>, which hold no
  dot, so the literal forms with a decimal point do not arise. The forms that remain
  are modelled: surrounding white space, the empty string (zero), the prefixed binary,
  octal and hexadecimal literals, an optional sign, \<open>Infinity\<close>, and decimal digits with
  an optional exponent. The value is the exact rational; the runtime rounds it to a
  binary64 number, which changes a comparison with a small integer only for a literal
  of more than fifteen significant digits that is not that integer. White space is the
  ASCII part of the runtime's set.
\<close>

datatype jsnum = NaN | Num rat | PosInf | NegInf

definition digit_of :: "char \<Rightarrow> nat option" where
  "digit_of c =
     (let n = (of_char c :: nat) in
      if 48 \<le> n \<and> n \<le> 57 then Some (n - 48)
      else if 97 \<le> n \<and> n \<le> 102 then Some (n - 87)
      else if 65 \<le> n \<and> n \<le> 70 then Some (n - 55)
      else None)"

fun read_digits :: "nat \<Rightarrow> nat \<Rightarrow> string \<Rightarrow> nat option" where
  "read_digits radix acc [] = Some acc"
| "read_digits radix acc (c # cs) =
     (case digit_of c of
        None \<Rightarrow> None
      | Some d \<Rightarrow> if d < radix then read_digits radix (acc * radix + d) cs else None)"

text \<open>One or more digits of the radix.\<close>

definition radix_value :: "nat \<Rightarrow> string \<Rightarrow> nat option" where
  "radix_value radix s = (if s = [] then None else read_digits radix 0 s)"

definition isWhiteSpace :: "char \<Rightarrow> bool" where
  "isWhiteSpace c = ((of_char c :: nat) \<in> {9, 10, 11, 12, 13, 32})"

definition trim :: "string \<Rightarrow> string" where
  "trim s = rev (dropWhile isWhiteSpace (rev (dropWhile isWhiteSpace s)))"

definition isExponentIndicator :: "char \<Rightarrow> bool" where
  "isExponentIndicator c = (c = CHR ''e'' \<or> c = CHR ''E'')"

definition StrUnsignedDecimalLiteral :: "string \<Rightarrow> jsnum" where
  "StrUnsignedDecimalLiteral u =
     (if u = ''Infinity'' then PosInf
      else
        (case radix_value 10 (takeWhile (\<lambda>c. \<not> isExponentIndicator c) u) of
           None \<Rightarrow> NaN
         | Some m \<Rightarrow>
             (case dropWhile (\<lambda>c. \<not> isExponentIndicator c) u of
                [] \<Rightarrow> Num (of_nat m)
              | _ # ex \<Rightarrow>
                  (case ex of
                     [] \<Rightarrow> NaN
                   | sg # ds \<Rightarrow>
                       if sg = CHR ''-'' then
                         (case radix_value 10 ds of
                            None \<Rightarrow> NaN
                          | Some k \<Rightarrow> Num (of_nat m / 10 ^ k))
                       else
                         (case radix_value 10 (if sg = CHR ''+'' then ds else ex) of
                            None \<Rightarrow> NaN
                          | Some k \<Rightarrow> Num (of_nat m * 10 ^ k))))))"

fun negate :: "jsnum \<Rightarrow> jsnum" where
  "negate NaN = NaN"
| "negate (Num r) = Num (- r)"
| "negate PosInf = NegInf"
| "negate NegInf = PosInf"

definition StrDecimalLiteral :: "string \<Rightarrow> jsnum" where
  "StrDecimalLiteral t =
     (case t of
        [] \<Rightarrow> NaN
      | c # r \<Rightarrow>
          if c = CHR ''+'' then StrUnsignedDecimalLiteral r
          else if c = CHR ''-'' then negate (StrUnsignedDecimalLiteral r)
          else StrUnsignedDecimalLiteral t)"

definition radix_of_prefix :: "string \<Rightarrow> nat option" where
  "radix_of_prefix t =
     (case t of
        a # b # _ \<Rightarrow>
          if a \<noteq> CHR ''0'' then None
          else if b = CHR ''x'' \<or> b = CHR ''X'' then Some 16
          else if b = CHR ''o'' \<or> b = CHR ''O'' then Some 8
          else if b = CHR ''b'' \<or> b = CHR ''B'' then Some 2
          else None
      | _ \<Rightarrow> None)"

definition Number_js :: "string \<Rightarrow> jsnum" where
  "Number_js s =
     (let t = trim s in
      if t = [] then Num 0
      else
        (case radix_of_prefix t of
           Some radix \<Rightarrow>
             (case radix_value radix (drop 2 t) of None \<Rightarrow> NaN | Some n \<Rightarrow> Num (of_nat n))
         | None \<Rightarrow> StrDecimalLiteral t))"

text \<open>\<open>x === k\<close>, \<open>x >= k\<close> and \<open>x <= k\<close> for a number \<open>x\<close> and an integer constant \<open>k\<close>.\<close>

fun num_eq :: "jsnum \<Rightarrow> nat \<Rightarrow> bool" where
  "num_eq (Num r) k = (r = of_nat k)"
| "num_eq _ k = False"

fun num_ge :: "jsnum \<Rightarrow> nat \<Rightarrow> bool" where
  "num_ge (Num r) k = (of_nat k \<le> r)"
| "num_ge PosInf k = True"
| "num_ge _ k = False"

fun num_le :: "jsnum \<Rightarrow> nat \<Rightarrow> bool" where
  "num_le (Num r) k = (r \<le> of_nat k)"
| "num_le NegInf k = True"
| "num_le _ k = False"

section \<open>The SSRF guard of server.js\<close>

text \<open>
  \<open>isPrivateIP(ip)\<close>: the early return on a missing address, the unwrapping of an
  IPv4-mapped address, the five IPv4 ranges on the first two of exactly four parts, and
  the prefix tests for IPv6.
\<close>

definition private_v4 :: "jsnum \<Rightarrow> jsnum \<Rightarrow> bool" where
  "private_v4 a b =
     (num_eq a 10
      \<or> (num_eq a 172 \<and> num_ge b 16 \<and> num_le b 31)
      \<or> (num_eq a 192 \<and> num_eq b 168)
      \<or> num_eq a 127
      \<or> (num_eq a 169 \<and> num_eq b 254))"

definition isPrivateIP_string :: "string \<Rightarrow> bool" where
  "isPrivateIP_string ip0 =
     (let ip = (if startsWith ip0 ''::ffff:'' then replace ''::ffff:'' [] ip0 else ip0);
          parts = map Number_js (split (CHR ''.'') ip)
      in if length parts = 4 \<and> private_v4 (parts ! 0) (parts ! 1) then True
         else ip = ''::1'' \<or> startsWith ip ''fe80'' \<or> startsWith ip ''fc''
              \<or> startsWith ip ''fd'')"

definition isPrivateIP :: "jsval \<Rightarrow> bool" where
  "isPrivateIP ip = (if falsy ip then True else
     (case ip of JString s \<Rightarrow> isPrivateIP_string s | _ \<Rightarrow> True))"

text \<open>An exception of the runtime: its name and its message.\<close>

datatype js_error = JsError string string

text \<open>An entry of the result of \<open>dns.lookup(hostname, {all: true})\<close>.\<close>

record lookup_address =
  address :: jsval
  family :: nat

text \<open>The \<open>for\<close> loop of \<open>resolveAndCheck\<close> over the resolved addresses.\<close>

fun check_addresses :: "lookup_address list \<Rightarrow> bool" where
  "check_addresses [] = True"
| "check_addresses (a # as) = (if isPrivateIP (address a) then False else check_addresses as)"

text \<open>\<open>resolveAndCheck(hostname)\<close>; the resolver is the parameter \<open>dns_lookup\<close>, whose
  rejection is the \<open>Inl\<close> result.\<close>

definition resolveAndCheck ::
  "(string \<Rightarrow> js_error + lookup_address list) \<Rightarrow> string \<Rightarrow> bool" where
  "resolveAndCheck dns_lookup hostname =
     (case dns_lookup hostname of
        Inl e \<Rightarrow> False
      | Inr addresses \<Rightarrow> check_addresses addresses)"

text \<open>The decimal notation of a natural number, and an IPv4 address in dotted-decimal
  notation, as the resolver returns it.\<close>

fun decimal :: "nat \<Rightarrow> string" where
  "decimal n =
     (if n < 10 then [char_of (48 + n)] else decimal (n div 10) @ [char_of (48 + n mod 10)])"

declare decimal.simps [simp del]

definition is_decimal_digit :: "char \<Rightarrow> bool" where
  "is_decimal_digit c = (48 \<le> (of_char c :: nat) \<and> (of_char c :: nat) \<le> 57)"

definition dotted_quad :: "nat \<Rightarrow> nat \<Rightarrow> nat \<Rightarrow> nat \<Rightarrow> string" where
  "dotted_quad a b c d = decimal a @ ''.'' @ decimal b @ ''.'' @ decimal c @ ''.'' @ decimal d"

section \<open>Link rewriting\<close>

definition FUNCTION_PATH :: string where
  "FUNCTION_PATH = ''/.netlify/functions/proxy''"

text \<open>\<open>/^(data:|javascript:|mailto:|tel:|#)/i.test(val)\<close>.\<close>

definition skip_scheme :: "string \<Rightarrow> bool" where
  "skip_scheme val =
     list_ex (\<lambda>p. prefix p (toLowerCase val))
       [''data:'', ''javascript:'', ''mailto:'', ''tel:'', ''#'']"

text \<open>\<open>/^https?:\/\//i.test(target)\<close>.\<close>

definition http_scheme :: "string \<Rightarrow> bool" where
  "http_scheme target =
     (prefix ''http://'' (toLowerCase target) \<or> prefix ''https://'' (toLowerCase target))"

text \<open>\<open>encodeURIComponent\<close> on the bytes of a string: the unreserved characters stay,
  every other byte becomes \<open>%XX\<close>.\<close>

definition uri_unreserved :: "char \<Rightarrow> bool" where
  "uri_unreserved c =
     (let n = (of_char c :: nat) in
      (48 \<le> n \<and> n \<le> 57) \<or> (65 \<le> n \<and> n \<le> 90) \<or> (97 \<le> n \<and> n \<le> 122)
      \<or> c \<in> set (''-_.!~*()'' @ [CHR 0x27]))"

definition hex_upper :: "nat \<Rightarrow> char" where
  "hex_upper n = ''0123456789ABCDEF'' ! (n mod 16)"

definition encodeURIComponent :: "string \<Rightarrow> string" where
  "encodeURIComponent s =
     concat (map (\<lambda>c. if uri_unreserved c then [c]
                        else [CHR ''%'', hex_upper (of_char c div 16), hex_upper (of_char c mod 16)]) s)"

text \<open>
  \<open>resolveAndProxy(base, val)\<close> of netlify/functions/proxy.js, for the string that
  \<open>attr\<close> returned. The URL parser of the runtime is the parameter \<open>URL_toString\<close>:
  \<open>URL_toString val base\<close> is \<open>new URL(val, base).toString()\<close>, and \<open>None\<close> when the
  constructor throws; the \<open>catch\<close> of the source is the \<open>None\<close> branch. Nothing else
  in the \<open>try\<close> block throws: \<open>encodeURIComponent\<close> rejects only a lone surrogate,
  and a serialised URL is ASCII.
\<close>

definition resolveAndProxy ::
  "(string \<Rightarrow> string \<Rightarrow> string option) \<Rightarrow> string \<Rightarrow> string \<Rightarrow> string" where
  "resolveAndProxy URL_toString base val =
     (if val = [] then val
      else if skip_scheme val then val
      else (case URL_toString val base of
              Some absolute \<Rightarrow> FUNCTION_PATH @ ''?url='' @ encodeURIComponent absolute
            | None \<Rightarrow> val))"

text \<open>\<open>resolveAndProxy\<close> of the CommonJS variant of the function: both tests in one
  condition.\<close>

definition resolveAndProxy_cjs ::
  "(string \<Rightarrow> string \<Rightarrow> string option) \<Rightarrow> string \<Rightarrow> string \<Rightarrow> string" where
  "resolveAndProxy_cjs URL_toString base val =
     (if val = [] \<or> skip_scheme val then val
      else (case URL_toString val base of
              Some absolute \<Rightarrow> FUNCTION_PATH @ ''?url='' @ encodeURIComponent absolute
            | None \<Rightarrow> val))"

subsection \<open>The document tree\<close>

text \<open>
  The tree that \<open>cheerio.load\<close> builds: elements with a tag name, attributes in their
  order and children; every other node (text, comment, doctype) is a leaf without
  attributes. A selector is a predicate on the tag name and the attributes.
\<close>

type_synonym attribs = "(string \<times> string) list"

datatype node = Element string attribs "node list" | Text string

type_synonym selector = "string \<Rightarrow> attribs \<Rightarrow> bool"

definition sel_a :: selector where
  "sel_a name as = (name = ''a'')"

definition sel_a_href :: selector where
  "sel_a_href name as = (name = ''a'' \<and> map_of as ''href'' \<noteq> None)"

definition sel_src :: selector where
  "sel_src name as = (map_of as ''src'' \<noteq> None)"

definition sel_link_href :: selector where
  "sel_link_href name as = (name = ''link'' \<and> map_of as ''href'' \<noteq> None)"

definition sel_body :: selector where
  "sel_body name as = (name = ''body'')"

text \<open>\<open>meta[http-equiv="Content-Security-Policy"]\<close>; how the selector engine compares
  the attribute value with the selector's (exactly, or folding case) is the parameter
  \<open>value_eq\<close>.\<close>

definition sel_meta_csp :: "(string \<Rightarrow> string \<Rightarrow> bool) \<Rightarrow> selector" where
  "sel_meta_csp value_eq name as =
     (name = ''meta'' \<and>
      (case map_of as ''http-equiv'' of
         None \<Rightarrow> False
       | Some v \<Rightarrow> value_eq v ''Content-Security-Policy''))"

text \<open>\<open>$(sel).each((i, el) => ...)\<close> for a callback that changes the attributes of
  \<open>el\<close> only: every element that matches, at any depth, gets the callback.\<close>

fun each :: "selector \<Rightarrow> (attribs \<Rightarrow> attribs) \<Rightarrow> node \<Rightarrow> node" where
  "each sel f (Text t) = Text t"
| "each sel f (Element name as cs) =
     Element name (if sel name as then f as else as) (map (each sel f) cs)"

text \<open>The elements that a selector matches, in document order: tag and attributes.\<close>

fun select :: "selector \<Rightarrow> node \<Rightarrow> (string \<times> attribs) list" where
  "select sel (Text t) = []"
| "select sel (Element name as cs) =
     (if sel name as then [(name, as)] else []) @ concat (map (select sel) cs)"

definition matches :: "selector \<Rightarrow> node \<Rightarrow> bool" where
  "matches sel n = (case n of Element name as cs \<Rightarrow> sel name as | Text t \<Rightarrow> False)"

text \<open>\<open>$(sel).remove()\<close>: the matching elements leave the tree with their subtrees.\<close>

fun remove_below :: "selector \<Rightarrow> node \<Rightarrow> node" where
  "remove_below sel (Text t) = Text t"
| "remove_below sel (Element name as cs) =
     Element name as (filter (\<lambda>c. \<not> matches sel c) (map (remove_below sel) cs))"

definition remove :: "selector \<Rightarrow> node list \<Rightarrow> node list" where
  "remove sel doc = filter (\<lambda>c. \<not> matches sel c) (map (remove_below sel) doc)"

text \<open>\<open>$(sel).prepend(markup)\<close>, for the nodes \<open>frag\<close> that the markup parses to.\<close>

fun prepend :: "selector \<Rightarrow> node list \<Rightarrow> node \<Rightarrow> node" where
  "prepend sel frag (Text t) = Text t"
| "prepend sel frag (Element name as cs) =
     Element name as ((if sel name as then frag else []) @ map (prepend sel frag) cs)"

subsection \<open>The callbacks of the rewriting passes\<close>

text \<open>netlify/functions/proxy.js: \<open>$('a').each\<close>, with the guard \<open>if (!href) return\<close>.\<close>

definition rewrite_anchor ::
  "(string \<Rightarrow> string \<Rightarrow> string option) \<Rightarrow> string \<Rightarrow> attribs \<Rightarrow> attribs" where
  "rewrite_anchor U target as =
     (case map_of as ''href'' of
        None \<Rightarrow> as
      | Some href \<Rightarrow>
          if href = [] then as
          else AList.update ''rel'' ''noreferrer noopener''
                 (AList.update ''href'' (resolveAndProxy U target href) as))"

text \<open>netlify/functions/proxy.js: the callbacks of \<open>$('[src]').each\<close> and
  \<open>$('link[href]').each\<close>, for the attribute \<open>k\<close>.\<close>

definition rewrite_attr ::
  "(string \<Rightarrow> string \<Rightarrow> string option) \<Rightarrow> string \<Rightarrow> string \<Rightarrow> attribs \<Rightarrow> attribs" where
  "rewrite_attr U target k as =
     (case map_of as k of
        None \<Rightarrow> as
      | Some v \<Rightarrow> if v = [] then as else AList.update k (resolveAndProxy U target v) as)"

text \<open>The CommonJS variant: the three callbacks are the same but for the attribute;
  none has a guard and none sets \<open>rel\<close>.\<close>

definition rewrite_attr_cjs ::
  "(string \<Rightarrow> string \<Rightarrow> string option) \<Rightarrow> string \<Rightarrow> string \<Rightarrow> attribs \<Rightarrow> attribs" where
  "rewrite_attr_cjs U target k as =
     (case map_of as k of
        None \<Rightarrow> as
      | Some v \<Rightarrow> AList.update k (resolveAndProxy_cjs U target v) as)"

text \<open>The passes over the document, in the order of the source, up to the removal of
  the CSP meta tags.\<close>

definition rewrite_document ::
  "(string \<Rightarrow> string \<Rightarrow> string option) \<Rightarrow> (string \<Rightarrow> string \<Rightarrow> bool) \<Rightarrow> string \<Rightarrow>
   node list \<Rightarrow> node list" where
  "rewrite_document U value_eq target doc =
     (let d1 = map (each sel_a (rewrite_anchor U target)) doc;
          d2 = map (each sel_src (rewrite_attr U target ''src'')) d1;
          d3 = map (each sel_link_href (rewrite_attr U target ''href'')) d2
      in remove (sel_meta_csp value_eq) d3)"

definition rewrite_document_cjs ::
  "(string \<Rightarrow> string \<Rightarrow> string option) \<Rightarrow> (string \<Rightarrow> string \<Rightarrow> bool) \<Rightarrow> string \<Rightarrow>
   node list \<Rightarrow> node list" where
  "rewrite_document_cjs U value_eq target doc =
     (let d1 = map (each sel_a_href (rewrite_attr_cjs U target ''href'')) doc;
          d2 = map (each sel_src (rewrite_attr_cjs U target ''src'')) d1;
          d3 = map (each sel_link_href (rewrite_attr_cjs U target ''href'')) d2
      in remove (sel_meta_csp value_eq) d3)"

subsection \<open>The banner\<close>

text \<open>\<open>s.replace(/c/g, rep)\<close> for one character and a replacement without \<open>$\<close>.\<close>

definition replace_all :: "char \<Rightarrow> string \<Rightarrow> string \<Rightarrow> string" where
  "replace_all c rep s = concat (map (\<lambda>x. if x = c then rep else [x]) s)"

definition escapeHtml :: "string \<Rightarrow> string" where
  "escapeHtml s =
     (if s = [] then []
      else replace_all (CHR ''>'') ''&gt;''
             (replace_all (CHR ''<'') ''&lt;'' (replace_all (CHR ''&'') ''&amp;'' s)))"

definition escapeAttr :: "string \<Rightarrow> string" where
  \<open>escapeAttr s =
     (if s = [] then []
      else replace_all (CHR 0x27) ''&#39;'' (replace_all (CHR 0x22) ''&quot;'' s))\<close>

definition topbar :: "string \<Rightarrow> string" where
  \<open>topbar target =
     ''\<newline>''
       @ ''        <div id="sleekproxy-topbar" style="position:fixed;left:0;right:0;top:0;z-index:9999999;height:54px;\<newline>''
       @ ''            backdrop-filter: blur(6px); background:linear-gradient(180deg, rgba(12,18,26,0.9), rgba(12,18,26,0.6));\<newline>''
       @ ''            color:#e6eef8; display:flex; align-items:center; gap:12px; padding:6px 14px; font-family:Inter,system-ui;">\<newline>''
       @ ''          <div style="font-weight:700; font-size:13px; margin-left:6px;">SleekProxy</div>\<newline>''
       @ ''          <div style="opacity:.93; font-size:13px; margin-left:8px; overflow:hidden; text-overflow:ellipsis; white-space:nowrap; max-width:60%;">\<newline>''
       @ ''            ''
       @ escapeHtml target
       @ ''\<newline>''
       @ ''          </div>\<newline>''
       @ ''          <div style="margin-left:auto; display:flex; gap:8px;">\<newline>''
       @ ''            <a href="/" style="color:#cfe8ff; text-decoration:none; padding:6px 10px; background:rgba(255,255,255,0.02); border-radius:8px;">New</a>\<newline>''
       @ ''            <a href="''
       @ escapeAttr (FUNCTION_PATH @ ''?url='' @ encodeURIComponent target)
       @ ''" style="color:#cfe8ff; text-decoration:none; padding:6px 10px; background:rgba(255,255,255,0.02); border-radius:8px;">Refresh</a>\<newline>''
       @ ''          </div>\<newline>''
       @ ''        </div><div style="height:54px;"></div>''\<close>

definition topbar_cjs :: "string \<Rightarrow> string" where
  \<open>topbar_cjs target =
     ''\<newline>''
       @ ''        <div style="position:fixed;top:0;left:0;right:0;z-index:99999;background:#111;padding:10px;color:#fff;font-size:14px;">\<newline>''
       @ ''          Proxying: ''
       @ target
       @ ''\<newline>''
       @ ''          <a href="/" style="margin-left:20px;color:#0bf;">Home</a>\<newline>''
       @ ''        </div>\<newline>''
       @ ''        <div style="height:40px;"></div>\<newline>''
       @ ''      ''\<close>

section \<open>The runtime\<close>

type_synonym byte = "8 word"

text \<open>
  An upstream response as the scripts read it: the status, the headers in the order in
  which \<open>headers.forEach\<close> visits them, and the body as \<open>text()\<close>, \<open>arrayBuffer()\<close>
  or the piped stream deliver it. The model covers the responses whose body is received
  in full; a failure while the body is read is not modelled.
\<close>

record upstream =
  up_status :: nat
  up_headers :: "(string \<times> string) list"
  up_body :: "byte list"

text \<open>The parts of a parsed \<open>URL\<close> that server.js reads.\<close>

record url =
  protocol :: string
  hostname :: string
  origin :: string
  href :: string

text \<open>
  What the scripts call and do not define: the URL parser (\<open>None\<close> when it throws), the
  resolver, \<open>fetch\<close> with the target and the \<open>User-Agent\<close> it sends (\<open>Inl\<close> when it
  rejects: network error or timeout), the decoding of a body as text, and the HTML
  library: parsing a document, parsing the markup given to \<open>prepend\<close>, serialising, and
  the comparison of attribute values in a selector.
\<close>

record runtime =
  URL_toString :: "string \<Rightarrow> string \<Rightarrow> string option"
  URL_parse :: "string \<Rightarrow> url option"
  dns_lookup :: "string \<Rightarrow> js_error + lookup_address list"
  fetch :: "string \<Rightarrow> string \<Rightarrow> js_error + upstream"
  response_text :: "byte list \<Rightarrow> string"
  cheerio_load :: "string \<Rightarrow> node list"
  cheerio_parse :: "string \<Rightarrow> node list"
  cheerio_html :: "node list \<Rightarrow> string"
  attr_value_eq :: "string \<Rightarrow> string \<Rightarrow> bool"

fun join :: "string \<Rightarrow> string list \<Rightarrow> string" where
  "join sep [] = []"
| "join sep [x] = x"
| "join sep (x # y # r) = x @ sep @ join sep (y # r)"

text \<open>\<open>headers.get(name)\<close>: the values under the name, whatever its case, joined by a
  comma and a space; \<open>None\<close> for \<open>null\<close>.\<close>

definition headers_get :: "(string \<times> string) list \<Rightarrow> string \<Rightarrow> string option" where
  "headers_get hs name =
     (let vs = map snd (filter (\<lambda>h. toLowerCase (fst h) = toLowerCase name) hs)
      in if vs = [] then None else Some (join '', '' vs))"

text \<open>\<open>x || d\<close> for a string or undefined \<open>x\<close>.\<close>

definition or_else :: "string option \<Rightarrow> string \<Rightarrow> string" where
  "or_else x d = (case x of None \<Rightarrow> d | Some v \<Rightarrow> if v = [] then d else v)"

text \<open>\<open>String(err.message || err)\<close>.\<close>

fun error_text :: "js_error \<Rightarrow> string" where
  "error_text (JsError name message) = (if message = [] then name else message)"

subsection \<open>\<open>buffer.toString('base64')\<close>\<close>

definition base64_alphabet :: string where
  "base64_alphabet = ''ABCDEFGHIJKLMNOPQRSTUVWXYZabcdefghijklmnopqrstuvwxyz0123456789+/''"

definition base64_char :: "nat \<Rightarrow> char" where
  "base64_char i = base64_alphabet ! i"

fun base64 :: "byte list \<Rightarrow> string" where
  "base64 [] = []"
| "base64 [a] =
     (let n = unat a
      in [base64_char (n div 4), base64_char (n mod 4 * 16), CHR ''='', CHR ''=''])"
| "base64 [a, b] =
     (let n = unat a * 256 + unat b
      in [base64_char (n div 1024), base64_char (n div 16 mod 64),
          base64_char (n mod 16 * 4), CHR ''=''])"
| "base64 (a # b # c # r) =
     (let n = unat a * 65536 + unat b * 256 + unat c
      in [base64_char (n div 262144), base64_char (n div 4096 mod 64),
          base64_char (n div 64 mod 64), base64_char (n mod 64)] @ base64 r)"

text \<open>The decoding of the receiver, to state the round trip: groups of four characters
  of the alphabet, the last group with one or two padding characters.\<close>

fun index_of :: "'a \<Rightarrow> 'a list \<Rightarrow> nat option" where
  "index_of x [] = None"
| "index_of x (y # ys) = (if x = y then Some 0 else map_option Suc (index_of x ys))"

definition sextets :: "string \<Rightarrow> nat list option" where
  "sextets cs =
     (if list_all (\<lambda>c. index_of c base64_alphabet \<noteq> None) cs
      then Some (map (\<lambda>c. the (index_of c base64_alphabet)) cs) else None)"

fun base64_decode :: "string \<Rightarrow> byte list option" where
  "base64_decode [] = Some []"
| "base64_decode (c1 # c2 # c3 # c4 # r) =
     (if r = [] \<and> c3 = CHR ''='' \<and> c4 = CHR ''='' then
        (case sextets [c1, c2] of
           Some [x, y] \<Rightarrow> Some [of_nat ((x * 64 + y) div 16)]
         | _ \<Rightarrow> None)
      else if r = [] \<and> c4 = CHR ''='' then
        (case sextets [c1, c2, c3] of
           Some [x, y, z] \<Rightarrow>
             (let n = (x * 64 + y) * 64 + z in Some [of_nat (n div 1024), of_nat (n div 4)])
         | _ \<Rightarrow> None)
      else
        (case (sextets [c1, c2, c3, c4], base64_decode r) of
           (Some [x, y, z, w], Some bs) \<Rightarrow>
             (let n = ((x * 64 + y) * 64 + z) * 64 + w
              in Some (of_nat (n div 65536) # of_nat (n div 256) # of_nat n # bs))
         | _ \<Rightarrow> None))"
| "base64_decode _ = None"

section \<open>The Netlify function\<close>

text \<open>\<open>if ($('body').length) $('body').prepend(topbar) else $.root().prepend(topbar)\<close>,
  for the nodes \<open>bar\<close> of the banner.\<close>

definition add_topbar :: "node list \<Rightarrow> node list \<Rightarrow> node list" where
  "add_topbar bar doc =
     (if concat (map (select sel_body) doc) \<noteq> [] then map (prepend sel_body bar) doc
      else bar @ doc)"

text \<open>The event: the query string parameters (absent, or a table) and the request
  headers. The result: the returned object, an absent \<open>headers\<close> being the empty list
  and an absent \<open>isBase64Encoded\<close> being \<open>False\<close>.\<close>

record event =
  queryStringParameters :: "(string \<times> string) list option"
  event_headers :: "(string \<times> string) list"

record result =
  statusCode :: nat
  headers :: "(string \<times> string) list"
  body :: string
  isBase64Encoded :: bool

text \<open>
  \<open>handler(event, context)\<close> of netlify/functions/proxy.js. The second component is
  the list of the calls of \<open>fetch\<close> made: target and \<open>User-Agent\<close>. The \<open>catch\<close> of
  the handler is the \<open>Inl\<close> branch.
\<close>

definition handler :: "runtime \<Rightarrow> event \<Rightarrow> result \<times> (string \<times> string) list" where
  "handler rt event =
     (let qs = (case queryStringParameters event of None \<Rightarrow> [] | Some q \<Rightarrow> q);
          target = or_else (map_of qs ''url'') []
      in
      if target = [] then
        (\<lparr>statusCode = 400, headers = [],
          body = ''Missing url parameter. Usage: /.netlify/functions/proxy?url=https://example.com'',
          isBase64Encoded = False\<rparr>, [])
      else if \<not> http_scheme target then
        (\<lparr>statusCode = 400, headers = [],
          body = ''Only http(s) URLs are supported. Include http:// or https://'',
          isBase64Encoded = False\<rparr>, [])
      else
        (let ua = or_else (map_of (event_headers event) ''user-agent'') ''SleekProxy-Netlify/1.0''
         in
         (case fetch rt target ua of
            Inl err \<Rightarrow>
              (\<lparr>statusCode = 500, headers = [],
                body = ''Proxy function error: '' @ error_text err,
                isBase64Encoded = False\<rparr>, [(target, ua)])
          | Inr upstreamResp \<Rightarrow>
              (let contentType = or_else (headers_get (up_headers upstreamResp) ''content-type'') [];
                   status = (if up_status upstreamResp = 0 then 200 else up_status upstreamResp)
               in
               if includes_str (toLowerCase contentType) ''text/html'' then
                 (let text = response_text rt (up_body upstreamResp);
                      doc = rewrite_document (URL_toString rt) (attr_value_eq rt) target
                              (cheerio_load rt text);
                      out = add_topbar (cheerio_parse rt (topbar target)) doc
                  in (\<lparr>statusCode = status,
                       headers = [(''Content-Type'', ''text/html; charset=utf-8'')],
                       body = cheerio_html rt out, isBase64Encoded = False\<rparr>, [(target, ua)]))
               else
                 (\<lparr>statusCode = status,
                   headers = [(''Content-Type'',
                               if contentType = [] then ''application/octet-stream'' else contentType),
                              (''Cache-Control'', ''max-age=3600'')],
                   body = base64 (up_body upstreamResp), isBase64Encoded = True\<rparr>,
                  [(target, ua)])))))"

text \<open>\<open>exports.handler\<close> of the CommonJS variant.\<close>

definition handler_cjs :: "runtime \<Rightarrow> event \<Rightarrow> result \<times> (string \<times> string) list" where
  "handler_cjs rt event =
     (let qs = (case queryStringParameters event of None \<Rightarrow> [] | Some q \<Rightarrow> q);
          target = or_else (map_of qs ''url'') []
      in
      if target = [] then
        (\<lparr>statusCode = 400, headers = [],
          body = ''Missing url parameter. Usage: /.netlify/functions/proxy?url=https://example.com'',
          isBase64Encoded = False\<rparr>, [])
      else if \<not> http_scheme target then
        (\<lparr>statusCode = 400, headers = [], body = ''Only http(s) URLs are supported.'',
          isBase64Encoded = False\<rparr>, [])
      else
        (let ua = or_else (map_of (event_headers event) ''user-agent'') ''SleekProxy/1.0''
         in
         (case fetch rt target ua of
            Inl err \<Rightarrow>
              (\<lparr>statusCode = 500, headers = [],
                body = ''Proxy function error: '' @ error_text err,
                isBase64Encoded = False\<rparr>, [(target, ua)])
          | Inr upstreamResp \<Rightarrow>
              (let contentType = or_else (headers_get (up_headers upstreamResp) ''content-type'') [];
                   status = (if up_status upstreamResp = 0 then 200 else up_status upstreamResp)
               in
               if includes_str (toLowerCase contentType) ''text/html'' then
                 (let text = response_text rt (up_body upstreamResp);
                      doc = rewrite_document_cjs (URL_toString rt) (attr_value_eq rt) target
                              (cheerio_load rt text);
                      out = map (prepend sel_body (cheerio_parse rt (topbar_cjs target))) doc
                  in (\<lparr>statusCode = status,
                       headers = [(''Content-Type'', ''text/html; charset=utf-8'')],
                       body = cheerio_html rt out, isBase64Encoded = False\<rparr>, [(target, ua)]))
               else
                 (\<lparr>statusCode = status,
                   headers = [(''Content-Type'', contentType), (''Cache-Control'', ''max-age=3600'')],
                   body = base64 (up_body upstreamResp), isBase64Encoded = True\<rparr>,
                  [(target, ua)])))))"

section \<open>The proxy route of server.js\<close>

text \<open>
  The Express response as the route drives it: the status, the calls of \<open>res.set\<close> in
  their order, and what was sent or piped. It is handed to the route by the middleware
  before it (helmet, the rate limiter, \<open>maybeAuth\<close>) and returned updated.
\<close>

datatype payload = NotSent | Sent string | Piped "byte list"

record response =
  res_status :: nat
  res_set_calls :: "(string \<times> string) list"
  res_body :: payload

record request =
  query_url :: "string option"
  user_agent :: "string option"

definition res_set :: "string \<Rightarrow> string \<Rightarrow> response \<Rightarrow> response" where
  "res_set name v res = res\<lparr>res_set_calls := res_set_calls res @ [(name, v)]\<rparr>"

definition send_status :: "nat \<Rightarrow> string \<Rightarrow> response \<Rightarrow> response" where
  "send_status code text res = res\<lparr>res_status := code, res_body := Sent text\<rparr>"

definition banned :: "string list" where
  "banned = [''content-security-policy'', ''content-security-policy-report-only'',
             ''x-frame-options'', ''set-cookie'', ''set-cookie2'', ''strict-transport-security'']"

text \<open>The callback of \<open>upstreamRes.headers.forEach\<close>, header after header.\<close>

fun forEach_header :: "(string \<times> string) list \<Rightarrow> response \<Rightarrow> response" where
  "forEach_header [] res = res"
| "forEach_header (h # hs) res =
     forEach_header hs
       (if toLowerCase (fst h) \<in> set banned then res else res_set (fst h) (snd h) res)"

text \<open>
  \<open>text.replace(/<head([^>]*)>/i, replacement)\<close>: the first \<open><head\<close>, in any case, that
  a \<open>>\<close> follows; the group is the text up to that \<open>>\<close>. \<open>match_head\<close> gives the text
  before the match, the match, the group and the text after it; \<open>GetSubstitution\<close>
  expands the \<open>$\<close> patterns of the replacement for a pattern with one group.
\<close>

fun match_head :: "string \<Rightarrow> string \<Rightarrow> (string \<times> string \<times> string \<times> string) option" where
  "match_head pre [] = None"
| "match_head pre (c # cs) =
     (if toLowerCase (take 5 (c # cs)) = ''<head'' \<and> CHR ''>'' \<in> set (drop 5 (c # cs)) then
        (let g = takeWhile (\<lambda>x. x \<noteq> CHR ''>'') (drop 5 (c # cs))
         in Some (pre, take 5 (c # cs) @ g @ ''>'', g,
                  drop 1 (dropWhile (\<lambda>x. x \<noteq> CHR ''>'') (drop 5 (c # cs)))))
      else match_head (pre @ [c]) cs)"

fun GetSubstitution :: "string \<Rightarrow> string \<Rightarrow> string \<Rightarrow> string \<Rightarrow> string \<Rightarrow> string" where
  "GetSubstitution matched pre post g [] = []"
| "GetSubstitution matched pre post g [c] = [c]"
| "GetSubstitution matched pre post g (c # d # r) =
     (if c \<noteq> CHR ''$'' then c # GetSubstitution matched pre post g (d # r)
      else if d = CHR ''$'' then CHR ''$'' # GetSubstitution matched pre post g r
      else if d = CHR ''&'' then matched @ GetSubstitution matched pre post g r
      else if d = CHR 0x60 then pre @ GetSubstitution matched pre post g r
      else if d = CHR 0x27 then post @ GetSubstitution matched pre post g r
      else if d = CHR ''1'' then g @ GetSubstitution matched pre post g r
      else
        (case r of
           [] \<Rightarrow> c # GetSubstitution matched pre post g (d # r)
         | e # r' \<Rightarrow>
             if d = CHR ''0'' \<and> e = CHR ''1'' then g @ GetSubstitution matched pre post g r'
             else c # GetSubstitution matched pre post g (d # r)))"

definition inject_base :: "string \<Rightarrow> string \<Rightarrow> string" where
  \<open>inject_base org text =
     (case match_head [] text of
        None \<Rightarrow> text
      | Some (pre, matched, g, post) \<Rightarrow>
          pre
          @ GetSubstitution matched pre post g (''<head$1>'' @ ''<base href="'' @ org @ ''">'')
          @ post)\<close>

text \<open>
  The route \<open>GET /proxy\<close>; \<open>ALLOWLIST\<close> is the constant computed from the environment.
  The second component is the list of the calls of \<open>fetch\<close> made.
\<close>

definition proxy_route ::
  "runtime \<Rightarrow> string list \<Rightarrow> request \<Rightarrow> response \<Rightarrow> response \<times> (string \<times> string) list" where
  "proxy_route rt ALLOWLIST req res =
     (let raw = or_else (query_url req) [] in
      if raw = [] then (send_status 400 ''Missing url parameter'' res, [])
      else
        (case URL_parse rt raw of
           None \<Rightarrow> (send_status 400 ''Invalid URL'' res, [])
         | Some target \<Rightarrow>
             if protocol target \<notin> set [''http:'', ''https:''] then
               (send_status 400 ''Invalid protocol'' res, [])
             else if ALLOWLIST \<noteq> [] \<and> hostname target \<notin> set ALLOWLIST then
               (send_status 403 ''Host not allowed by server allowlist'' res, [])
             else if \<not> resolveAndCheck (dns_lookup rt) (hostname target) then
               (send_status 403 ''Access to private/internal IPs is blocked'' res, [])
             else
               (let ua = or_else (user_agent req) ''OmniProxy/1.0'' in
                (case fetch rt (href target) ua of
                   Inl err \<Rightarrow> (send_status 502 ''Bad gateway'' res, [(href target, ua)])
                 | Inr upstreamRes \<Rightarrow>
                     (let res1 = forEach_header (up_headers upstreamRes)
                                   (res\<lparr>res_status := up_status upstreamRes\<rparr>);
                          contentType = or_else (headers_get (up_headers upstreamRes) ''content-type'') []
                      in
                      if includes_str contentType ''text/html'' then
                        ((res_set ''content-type'' ''text/html; charset=utf-8'' res1)
                           \<lparr>res_body := Sent (inject_base (origin target)
                                                (response_text rt (up_body upstreamRes)))\<rparr>,
                         [(href target, ua)])
                      else (res1\<lparr>res_body := Piped (up_body upstreamRes)\<rparr>, [(href target, ua)]))))))"

section \<open>Notions used in the statements\<close>



text \<open>The event carries the target \<open>target\<close> and the function accepts it: the two
  tests before \<open>fetch\<close>.\<close>

definition valid_target :: "event \<Rightarrow> string \<Rightarrow> bool" where
  "valid_target event target =
     (or_else (map_of (case queryStringParameters event of None \<Rightarrow> [] | Some q \<Rightarrow> q) ''url'') []
        = target
      \<and> target \<noteq> [] \<and> http_scheme target)"

text \<open>The request carries a URL that parses to \<open>target\<close> and passes the tests of the
  route before \<open>fetch\<close>: protocol, allowlist and guard.\<close>

definition authorized :: "runtime \<Rightarrow> string list \<Rightarrow> request \<Rightarrow> url \<Rightarrow> bool" where
  "authorized rt ALLOWLIST req target =
     (or_else (query_url req) [] \<noteq> []
      \<and> URL_parse rt (or_else (query_url req) []) = Some target
      \<and> protocol target \<in> set [''http:'', ''https:'']
      \<and> (ALLOWLIST = [] \<or> hostname target \<in> set ALLOWLIST)
      \<and> resolveAndCheck (dns_lookup rt) (hostname target))"

text \<open>
  The rewriting as the specification words it, element by element. \<open>forest_rel R\<close>
  relates two documents of the same shape and the same text whose elements, place by
  place, are related by \<open>R\<close>. \<open>rewritten\<close> relates an element of the parsed document
  to its rewriting by netlify/functions/proxy.js: same tag; the href of an anchor or a
  link and the src of any element passed through \<open>resolveAndProxy\<close> (which returns an
  empty value as it is); \<open>rel="noreferrer noopener"\<close> on an anchor with a non-empty
  href; every other attribute as it was, in its order. \<open>rewritten_cjs\<close> is the same for
  the CommonJS variant, which leaves rel alone.
\<close>

fun tree_rel :: "(string \<times> attribs \<Rightarrow> string \<times> attribs \<Rightarrow> bool) \<Rightarrow> node \<Rightarrow> node \<Rightarrow> bool"
  and forest_rel :: "(string \<times> attribs \<Rightarrow> string \<times> attribs \<Rightarrow> bool) \<Rightarrow> node list \<Rightarrow> node list \<Rightarrow> bool"
where
  "tree_rel R (Text t) (Text t') = (t = t')"
| "tree_rel R (Element name as cs) (Element name' as' cs') =
     (R (name, as) (name', as') \<and> forest_rel R cs cs')"
| "tree_rel R (Text t) (Element name' as' cs') = False"
| "tree_rel R (Element name as cs) (Text t') = False"
| "forest_rel R [] [] = True"
| "forest_rel R (n # ns) (n' # ns') = (tree_rel R n n' \<and> forest_rel R ns ns')"
| "forest_rel R [] (n' # ns') = False"
| "forest_rel R (n # ns) [] = False"

definition rewritten ::
  "(string \<Rightarrow> string \<Rightarrow> string option) \<Rightarrow> string \<Rightarrow> string \<times> attribs \<Rightarrow> string \<times> attribs \<Rightarrow> bool" where
  "rewritten U target e e' =
     (fst e' = fst e
      \<and> map_of (snd e') ''href'' =
          (if fst e = ''a'' \<or> fst e = ''link''
           then map_option (resolveAndProxy U target) (map_of (snd e) ''href'')
           else map_of (snd e) ''href'')
      \<and> map_of (snd e') ''src'' = map_option (resolveAndProxy U target) (map_of (snd e) ''src'')
      \<and> map_of (snd e') ''rel'' =
          (if fst e = ''a'' \<and> (case map_of (snd e) ''href'' of None \<Rightarrow> False | Some h \<Rightarrow> h \<noteq> [])
           then Some ''noreferrer noopener'' else map_of (snd e) ''rel'')
      \<and> filter (\<lambda>p. fst p \<notin> {''href'', ''src'', ''rel''}) (snd e')
          = filter (\<lambda>p. fst p \<notin> {''href'', ''src'', ''rel''}) (snd e))"

definition rewritten_cjs ::
  "(string \<Rightarrow> string \<Rightarrow> string option) \<Rightarrow> string \<Rightarrow> string \<times> attribs \<Rightarrow> string \<times> attribs \<Rightarrow> bool" where
  "rewritten_cjs U target e e' =
     (fst e' = fst e
      \<and> map_of (snd e') ''href'' =
          (if fst e = ''a'' \<or> fst e = ''link''
           then map_option (resolveAndProxy_cjs U target) (map_of (snd e) ''href'')
           else map_of (snd e) ''href'')
      \<and> map_of (snd e') ''src'' = map_option (resolveAndProxy_cjs U target) (map_of (snd e) ''src'')
      \<and> filter (\<lambda>p. fst p \<notin> {''href'', ''src''}) (snd e')
          = filter (\<lambda>p. fst p \<notin> {''href'', ''src''}) (snd e))"

text \<open>For the proofs: one pass over the elements with a callback that sees the tag, and
  the three callbacks of each variant in one.\<close>

fun map_elements :: "(string \<Rightarrow> attribs \<Rightarrow> attribs) \<Rightarrow> node \<Rightarrow> node" where
  "map_elements g (Text t) = Text t"
| "map_elements g (Element name as cs) = Element name (g name as) (map (map_elements g) cs)"

definition rewrite_element ::
  "(string \<Rightarrow> string \<Rightarrow> string option) \<Rightarrow> string \<Rightarrow> string \<Rightarrow> attribs \<Rightarrow> attribs" where
  "rewrite_element U target name as =
     (let as1 = (if sel_a name as then rewrite_anchor U target as else as);
          as2 = (if sel_src name as1 then rewrite_attr U target ''src'' as1 else as1)
      in if sel_link_href name as2 then rewrite_attr U target ''href'' as2 else as2)"

definition rewrite_element_cjs ::
  "(string \<Rightarrow> string \<Rightarrow> string option) \<Rightarrow> string \<Rightarrow> string \<Rightarrow> attribs \<Rightarrow> attribs" where
  "rewrite_element_cjs U target name as =
     (let as1 = (if sel_a_href name as then rewrite_attr_cjs U target ''href'' as else as);
          as2 = (if sel_src name as1 then rewrite_attr_cjs U target ''src'' as1 else as1)
      in if sel_link_href name as2 then rewrite_attr_cjs U target ''href'' as2 else as2)"

subsection \<open>A runtime to run the scripts on\<close>

text \<open>
  A small world: the host \<open>x.com\<close> resolves to a public address and serves an HTML
  page with status 404 at \<open>/c/\<close> and an image at \<open>/logo.png\<close>; \<open>rebind.example\<close>
  resolves to a public and a private address; every other host fails to resolve and
  every other fetch fails. The URL parser rejects \<open>http://[\<close>.
\<close>

definition example_document :: "node list" where
  "example_document =
     [Element ''html'' []
       [Element ''head'' []
         [Element ''meta'' [(''http-equiv'', ''Content-Security-Policy''), (''content'', ''x'')] [],
          Element ''link'' [(''rel'', ''stylesheet''), (''href'', ''s.css'')] []],
        Element ''body'' []
         [Element ''a'' [(''href'', ''/a/b'')] [Text ''next''],
          Element ''a'' [(''href'', [])] [],
          Element ''a'' [(''href'', ''http://[''), (''rel'', ''x'')] [],
          Element ''img'' [(''src'', ''data:image/png;base64,AAAA'')] []]]]"

definition example_URL_toString :: "string \<Rightarrow> string \<Rightarrow> string option" where
  "example_URL_toString val base =
     (if val = ''http://['' then None
      else if prefix ''/'' val then Some (''http://x.com'' @ val)
      else Some (base @ val))"

definition example_URL_parse :: "string \<Rightarrow> url option" where
  "example_URL_parse raw =
     (if prefix ''http://'' raw \<and> raw \<noteq> ''http://['' then
        Some \<lparr>protocol = ''http:'',
              hostname = takeWhile (\<lambda>c. c \<noteq> CHR ''/'') (drop 7 raw),
              origin = ''http://'' @ takeWhile (\<lambda>c. c \<noteq> CHR ''/'') (drop 7 raw),
              href = raw\<rparr>
      else None)"

definition example_dns_lookup :: "string \<Rightarrow> js_error + lookup_address list" where
  "example_dns_lookup h =
     (if h = ''x.com'' then Inr [\<lparr>address = JString ''93.184.216.34'', family = 4\<rparr>]
      else if h = ''rebind.example'' then
        Inr [\<lparr>address = JString ''93.184.216.34'', family = 4\<rparr>,
             \<lparr>address = JString ''10.0.0.1'', family = 4\<rparr>]
      else Inl (JsError ''Error'' ''getaddrinfo ENOTFOUND''))"

text \<open>A resolver whose answer holds an entry without an address.\<close>

definition example_dns_absent :: "string \<Rightarrow> js_error + lookup_address list" where
  "example_dns_absent h =
     Inr [\<lparr>address = JString ''93.184.216.34'', family = 4\<rparr>,
          \<lparr>address = JUndefined, family = 0\<rparr>]"

definition example_page :: upstream where
  "example_page =
     \<lparr>up_status = 404,
      up_headers = [(''content-type'', ''Text/HTML''), (''set-cookie'', ''sid=1''),
                    (''X-Frame-Options'', ''DENY''), (''etag'', ''abc'')],
      up_body = [60, 104, 116, 109, 108, 62]\<rparr>"

definition example_image :: upstream where
  "example_image =
     \<lparr>up_status = 200,
      up_headers = [(''content-type'', ''image/png''), (''Set-Cookie'', ''sid=1''),
                    (''etag'', ''abc'')],
      up_body = [137, 80, 78, 71, 255]\<rparr>"

definition example_fetch :: "string \<Rightarrow> string \<Rightarrow> js_error + upstream" where
  "example_fetch target ua =
     (if target = ''http://x.com/c/'' then Inr example_page
      else if target = ''http://x.com/logo.png'' then Inr example_image
      else Inl (JsError ''FetchError'' ''network timeout''))"

text \<open>A serialiser for the example: tags with their attributes, and text as it is.\<close>

fun example_serialize :: "node \<Rightarrow> string" where
  "example_serialize (Text t) = t"
| \<open>example_serialize (Element name as cs) =
     ''<'' @ name @ concat (map (\<lambda>p. '' '' @ fst p @ ''="'' @ snd p @ ''"'') as) @ ''>''
     @ concat (map example_serialize cs) @ ''</'' @ name @ ''>''\<close>

definition example_runtime :: runtime where
  "example_runtime =
     \<lparr>URL_toString = example_URL_toString,
      URL_parse = example_URL_parse,
      dns_lookup = example_dns_lookup,
      fetch = example_fetch,
      response_text = map (\<lambda>b. char_of (unat b)),
      cheerio_load = (\<lambda>text. example_document),
      cheerio_parse = (\<lambda>markup. [Text markup]),
      cheerio_html = (\<lambda>doc. concat (map example_serialize doc)),
      attr_value_eq = (=)\<rparr>"

definition example_event :: "string \<Rightarrow> event" where
  "example_event target =
     \<lparr>queryStringParameters = Some [(''url'', target)], event_headers = [(''user-agent'', ''UA/1'')]\<rparr>"

definition example_request :: "string \<Rightarrow> request" where
  "example_request target = \<lparr>query_url = Some target, user_agent = None\<rparr>"

definition example_response :: response where
  "example_response = \<lparr>res_status = 200, res_set_calls = [], res_body = NotSent\<rparr>"

section \<open>Properties of the guard\<close>

lemma check_addresses_iff:
  "check_addresses as \<longleftrightarrow> (\<forall>a\<in>set as. \<not> isPrivateIP (address a))"
  by (induction as) auto

lemma digit_of_decimal: "d < 10 \<Longrightarrow> digit_of (char_of (48 + d)) = Some d"
  by (simp add: digit_of_def)

lemma read_digits_snoc:
  "read_digits r acc (xs @ [c]) =
     (case read_digits r acc xs of None \<Rightarrow> None
      | Some v \<Rightarrow> (case digit_of c of None \<Rightarrow> None | Some d \<Rightarrow> if d < r then Some (v * r + d) else None))"
  by (induction xs arbitrary: acc) (auto split: option.splits)

lemma read_digits_decimal: "read_digits 10 0 (decimal n) = Some n"
proof (induction n rule: decimal.induct)
  case (1 n)
  show ?case
  proof (cases "n < 10")
    case True
    then show ?thesis by (subst decimal.simps) (simp add: digit_of_decimal)
  next
    case False
    with 1 have "read_digits 10 0 (decimal (n div 10)) = Some (n div 10)" by simp
    with False show ?thesis
      by (subst decimal.simps) (simp add: read_digits_snoc digit_of_decimal)
  qed
qed

lemma decimal_digits: "c \<in> set (decimal n) \<Longrightarrow> is_decimal_digit c"
proof (induction n rule: decimal.induct)
  case (1 n)
  show ?case
  proof (cases "n < 10")
    case True
    with 1(2) show ?thesis by (subst (asm) decimal.simps) (simp add: is_decimal_digit_def)
  next
    case False
    with 1 show ?thesis
      by (subst (asm) (2) decimal.simps) (auto simp: is_decimal_digit_def)
  qed
qed

lemma decimal_not_Nil: "decimal n \<noteq> []"
  by (subst decimal.simps) simp

lemma digit_facts:
  assumes "is_decimal_digit c"
  shows "\<not> isWhiteSpace c" "\<not> isExponentIndicator c" "c \<noteq> CHR ''+''" "c \<noteq> CHR ''-''"
    "c \<noteq> CHR ''I''" "c \<noteq> CHR ''x''" "c \<noteq> CHR ''X''" "c \<noteq> CHR ''o''" "c \<noteq> CHR ''O''"
    "c \<noteq> CHR ''b''" "c \<noteq> CHR ''B''" "c \<noteq> CHR ''.''" "c \<noteq> CHR '':''" "c \<noteq> CHR ''f''"
  using assms by (auto simp: is_decimal_digit_def isWhiteSpace_def isExponentIndicator_def)

lemma trim_digits:
  assumes "\<And>c. c \<in> set s \<Longrightarrow> is_decimal_digit c"
  shows "trim s = s"
proof -
  have "dropWhile isWhiteSpace s = s"
    by (rule dropWhile_id) (simp add: assms digit_facts)
  moreover have "dropWhile isWhiteSpace (rev s) = rev s"
    by (rule dropWhile_id) (simp add: assms digit_facts)
  ultimately show ?thesis by (simp add: trim_def)
qed

lemma radix_of_prefix_digits:
  assumes "\<And>c. c \<in> set s \<Longrightarrow> is_decimal_digit c"
  shows "radix_of_prefix s = None"
proof (cases s)
  case Nil
  then show ?thesis by (simp add: radix_of_prefix_def)
next
  case (Cons a r)
  show ?thesis
  proof (cases r)
    case Nil
    with Cons show ?thesis by (simp add: radix_of_prefix_def)
  next
    case (Cons b r')
    with \<open>s = a # r\<close> have "is_decimal_digit b" using assms by simp
    with Cons \<open>s = a # r\<close> show ?thesis
      by (auto simp: radix_of_prefix_def dest: digit_facts)
  qed
qed

lemma StrUnsignedDecimalLiteral_digits:
  assumes "\<And>c. c \<in> set s \<Longrightarrow> is_decimal_digit c" and "s \<noteq> []"
    and "read_digits 10 0 s = Some n"
  shows "StrUnsignedDecimalLiteral s = Num (of_nat n)"
proof -
  have "hd s \<in> set s" using assms(2) by simp
  then have "is_decimal_digit (hd s)" by (rule assms(1))
  then have "s \<noteq> ''Infinity''" by (auto dest: digit_facts)
  moreover have "takeWhile (\<lambda>c. \<not> isExponentIndicator c) s = s"
    by (simp add: assms(1) digit_facts)
  moreover have "dropWhile (\<lambda>c. \<not> isExponentIndicator c) s = []"
    by (simp add: assms(1) digit_facts)
  ultimately show ?thesis
    unfolding StrUnsignedDecimalLiteral_def radix_value_def
    using assms(2,3) by (simp only: if_False option.case list.case)
qed

lemma Number_js_digits:
  assumes "\<And>c. c \<in> set s \<Longrightarrow> is_decimal_digit c" and "s \<noteq> []"
    and "read_digits 10 0 s = Some n"
  shows "Number_js s = Num (of_nat n)"
proof -
  obtain a r where s: "s = a # r" using assms(2) by (cases s) auto
  then have "is_decimal_digit a" using assms(1) by simp
  then have "a \<noteq> CHR ''+''" "a \<noteq> CHR ''-''" by (auto dest: digit_facts)
  then have "StrDecimalLiteral s = StrUnsignedDecimalLiteral s"
    by (simp add: StrDecimalLiteral_def s)
  then show ?thesis
    using assms by (simp add: Number_js_def trim_digits radix_of_prefix_digits
        StrUnsignedDecimalLiteral_digits)
qed

lemma Number_js_decimal: "Number_js (decimal n) = Num (of_nat n)"
  by (rule Number_js_digits) (simp_all add: decimal_digits decimal_not_Nil read_digits_decimal)

lemma split_no_sep: "sep \<notin> set p \<Longrightarrow> split sep p = [p]"
  by (induction p) auto

lemma split_append_sep: "sep \<notin> set p \<Longrightarrow> split sep (p @ sep # r) = p # split sep r"
  by (induction p) auto

lemma decimal_no_dot: "CHR ''.'' \<notin> set (decimal n)"
  using decimal_digits digit_facts(12) by blast

lemma split_dotted_quad:
  "split (CHR ''.'') (dotted_quad a b c d) = [decimal a, decimal b, decimal c, decimal d]"
  by (simp add: dotted_quad_def split_append_sep split_no_sep decimal_no_dot)

lemma hd_dotted_quad: "\<exists>x r. dotted_quad a b c d = x # r \<and> is_decimal_digit x"
proof -
  obtain x r where "decimal a = x # r" using decimal_not_Nil [of a] by (cases "decimal a") auto
  moreover from this have "is_decimal_digit x" using decimal_digits [of x a] by simp
  ultimately show ?thesis by (simp add: dotted_quad_def)
qed

lemma isPrivateIP_string_dotted_quad:
  "isPrivateIP_string (dotted_quad a b c d) \<longleftrightarrow>
     (a = 10 \<or> (a = 172 \<and> 16 \<le> b \<and> b \<le> 31) \<or> (a = 192 \<and> b = 168) \<or> a = 127
      \<or> (a = 169 \<and> b = 254))"
proof -
  obtain x r where q: "dotted_quad a b c d = x # r" and x: "is_decimal_digit x"
    using hd_dotted_quad by blast
  from x have "x \<noteq> CHR '':''" "x \<noteq> CHR ''f''" by (auto dest: digit_facts)
  then have nopre: "\<not> startsWith (dotted_quad a b c d) ''::ffff:''"
    "\<not> startsWith (dotted_quad a b c d) ''fe80''" "\<not> startsWith (dotted_quad a b c d) ''fc''"
    "\<not> startsWith (dotted_quad a b c d) ''fd''" "dotted_quad a b c d \<noteq> ''::1''"
    by (simp_all add: startsWith_def q)
  show ?thesis
    unfolding isPrivateIP_string_def
    by (simp add: nopre split_dotted_quad Number_js_decimal private_v4_def Let_def)
qed

lemma replace_prefix: "replace p [] (p @ s) = s"
proof (cases "p @ s")
  case Nil
  then show ?thesis by simp
next
  case (Cons a l)
  have "prefix p (a # l)" unfolding Cons [symmetric] by simp
  then have "replace p [] (a # l) = drop (length p) (a # l)" by simp
  also have "\<dots> = s" unfolding Cons [symmetric] by simp
  finally show ?thesis unfolding Cons .
qed

lemma isPrivateIP_string_mapped:
  "isPrivateIP_string (''::ffff:'' @ dotted_quad a b c d) = isPrivateIP_string (dotted_quad a b c d)"
proof -
  obtain x r where q: "dotted_quad a b c d = x # r" and x: "is_decimal_digit x"
    using hd_dotted_quad by blast
  from x have "x \<noteq> CHR '':''" by (auto dest: digit_facts)
  then have nopre: "\<not> startsWith (dotted_quad a b c d) ''::ffff:''"
    by (simp_all add: startsWith_def q)
  have pre: "startsWith (''::ffff:'' @ dotted_quad a b c d) ''::ffff:''"
    by (simp add: startsWith_def)
  have "replace ''::ffff:'' [] (''::ffff:'' @ dotted_quad a b c d) = dotted_quad a b c d"
    by (rule replace_prefix)
  then show ?thesis
    unfolding isPrivateIP_string_def using pre nopre by (simp only: if_True if_False)
qed

lemma proxy_route_denied:
  assumes "or_else (query_url req) [] \<noteq> []"
    and "URL_parse rt (or_else (query_url req) []) = Some target"
    and "protocol target \<in> set [''http:'', ''https:'']"
    and "ALLOWLIST = [] \<or> hostname target \<in> set ALLOWLIST"
    and "\<not> resolveAndCheck (dns_lookup rt) (hostname target)"
  shows "proxy_route rt ALLOWLIST req res =
     (res\<lparr>res_status := 403, res_body := Sent ''Access to private/internal IPs is blocked''\<rparr>, [])"
  using assms unfolding proxy_route_def by (auto simp: Let_def send_status_def)

text \<open>
  Claim C1. For every resolver and every hostname, \<open>resolveAndCheck\<close> allows the
  hostname exactly when the resolution succeeds and no resolved address is private: one
  private address among public ones denies it, and so does a failed resolution. A
  request whose hostname is denied is answered by the route with status 403, and no
  \<open>fetch\<close> is made.
\<close>

theorem C1_resolveAndCheck_allows_iff:
  "(resolveAndCheck dns h \<longleftrightarrow>
     (\<exists>addrs. dns h = Inr addrs \<and> (\<forall>a\<in>set addrs. \<not> isPrivateIP (address a))))
   \<and> (or_else (query_url req) [] \<noteq> []
      \<and> URL_parse rt (or_else (query_url req) []) = Some target
      \<and> protocol target \<in> set [''http:'', ''https:'']
      \<and> (ALLOWLIST = [] \<or> hostname target \<in> set ALLOWLIST)
      \<and> \<not> resolveAndCheck (dns_lookup rt) (hostname target)
      \<longrightarrow> proxy_route rt ALLOWLIST req res =
            (res\<lparr>res_status := 403, res_body := Sent ''Access to private/internal IPs is blocked''\<rparr>,
             []))"
proof (intro conjI impI)
  show "resolveAndCheck dns h \<longleftrightarrow>
     (\<exists>addrs. dns h = Inr addrs \<and> (\<forall>a\<in>set addrs. \<not> isPrivateIP (address a)))"
    by (auto simp: resolveAndCheck_def check_addresses_iff split: sum.splits)
next
  assume "or_else (query_url req) [] \<noteq> []
      \<and> URL_parse rt (or_else (query_url req) []) = Some target
      \<and> protocol target \<in> set [''http:'', ''https:'']
      \<and> (ALLOWLIST = [] \<or> hostname target \<in> set ALLOWLIST)
      \<and> \<not> resolveAndCheck (dns_lookup rt) (hostname target)"
  then show "proxy_route rt ALLOWLIST req res =
            (res\<lparr>res_status := 403, res_body := Sent ''Access to private/internal IPs is blocked''\<rparr>,
             [])"
    by (intro proxy_route_denied) blast+
qed

theorem C1_resolveAndCheck_witness:
  "resolveAndCheck example_dns_lookup ''x.com''
   \<and> \<not> resolveAndCheck example_dns_lookup ''rebind.example''
   \<and> \<not> resolveAndCheck example_dns_lookup ''nx.example''
   \<and> proxy_route example_runtime [] (example_request ''http://rebind.example/'') example_response =
       (\<lparr>res_status = 403, res_set_calls = [],
         res_body = Sent ''Access to private/internal IPs is blocked''\<rparr>, [])"
proof -
  have pub: "\<not> isPrivateIP (JString ''93.184.216.34'')" by code_simp
  have priv: "isPrivateIP (JString ''10.0.0.1'')" by code_simp
  note t = C1_resolveAndCheck_allows_iff [of example_dns_lookup _ "example_request ''http://rebind.example/''"
      example_runtime
      "\<lparr>protocol = ''http:'', hostname = ''rebind.example'', origin = ''http://rebind.example'',
        href = ''http://rebind.example/''\<rparr>" "[]" example_response]
  have "\<exists>addrs. example_dns_lookup ''x.com'' = Inr addrs
          \<and> (\<forall>a\<in>set addrs. \<not> isPrivateIP (address a))"
    by (simp add: example_dns_lookup_def pub)
  then have 1: "resolveAndCheck example_dns_lookup ''x.com''"
    using t [of "''x.com''"] by blast
  have "\<not> (\<exists>addrs. example_dns_lookup ''rebind.example'' = Inr addrs
          \<and> (\<forall>a\<in>set addrs. \<not> isPrivateIP (address a)))"
    by (simp add: example_dns_lookup_def priv)
  then have 2: "\<not> resolveAndCheck example_dns_lookup ''rebind.example''"
    using t [of "''rebind.example''"] by blast
  have "\<not> (\<exists>addrs. example_dns_lookup ''nx.example'' = Inr addrs
          \<and> (\<forall>a\<in>set addrs. \<not> isPrivateIP (address a)))"
    by (simp add: example_dns_lookup_def)
  then have 3: "\<not> resolveAndCheck example_dns_lookup ''nx.example''"
    using t [of "''nx.example''"] by blast
  have q: "or_else (query_url (example_request ''http://rebind.example/'')) [] \<noteq> []"
    "URL_parse example_runtime (or_else (query_url (example_request ''http://rebind.example/'')) [])
       = Some \<lparr>protocol = ''http:'', hostname = ''rebind.example'', origin = ''http://rebind.example'',
        href = ''http://rebind.example/''\<rparr>"
    "protocol \<lparr>protocol = ''http:'', hostname = ''rebind.example'', origin = ''http://rebind.example'',
        href = ''http://rebind.example/''\<rparr> \<in> set [''http:'', ''https:'']"
    by code_simp+
  have d: "\<not> resolveAndCheck (dns_lookup example_runtime)
      (hostname \<lparr>protocol = ''http:'', hostname = ''rebind.example'', origin = ''http://rebind.example'',
        href = ''http://rebind.example/''\<rparr>)"
    using 2 by (simp add: example_runtime_def)
  from t [of "[]"] q d
  have "proxy_route example_runtime [] (example_request ''http://rebind.example/'') example_response =
      (example_response\<lparr>res_status := 403,
         res_body := Sent ''Access to private/internal IPs is blocked''\<rparr>, [])"
    by blast
  then have 4: "proxy_route example_runtime [] (example_request ''http://rebind.example/'') example_response =
       (\<lparr>res_status = 403, res_set_calls = [],
         res_body = Sent ''Access to private/internal IPs is blocked''\<rparr>, [])"
    by (simp add: example_response_def)
  from 1 2 3 4 show ?thesis by (intro conjI)
qed

text \<open>
  Claim C2. \<open>isPrivateIP\<close> on an IPv4 address \<open>a.b.c.d\<close> in dotted-decimal notation is
  true exactly in the ranges 10.0.0.0/8, 172.16.0.0/12, 192.168.0.0/16, 127.0.0.0/8 and
  169.254.0.0/16, hence false for every public address; an IPv4-mapped address
  \<open>::ffff:a.b.c.d\<close> is classified as \<open>a.b.c.d\<close> is; \<open>::1\<close> and every address that
  starts with \<open>fe80\<close>, \<open>fc\<close> or \<open>fd\<close> are private.
\<close>

theorem C2_isPrivateIP_ranges:
  "(isPrivateIP (JString (dotted_quad a b c d)) \<longleftrightarrow>
     (a = 10 \<or> (a = 172 \<and> 16 \<le> b \<and> b \<le> 31) \<or> (a = 192 \<and> b = 168) \<or> a = 127
      \<or> (a = 169 \<and> b = 254)))
   \<and> (isPrivateIP (JString (''::ffff:'' @ dotted_quad a b c d)) \<longleftrightarrow>
        isPrivateIP (JString (dotted_quad a b c d)))
   \<and> isPrivateIP (JString ''::1'')
   \<and> isPrivateIP (JString (''fe80'' @ s))
   \<and> isPrivateIP (JString (''fc'' @ s))
   \<and> isPrivateIP (JString (''fd'' @ s))"
proof -
  have nn: "dotted_quad a b c d \<noteq> []" using hd_dotted_quad [of a b c d] by auto
  have 1: "isPrivateIP (JString (dotted_quad a b c d)) = isPrivateIP_string (dotted_quad a b c d)"
    by (simp add: isPrivateIP_def nn)
  have 2: "isPrivateIP (JString (''::ffff:'' @ dotted_quad a b c d))
      = isPrivateIP_string (''::ffff:'' @ dotted_quad a b c d)"
    by (simp add: isPrivateIP_def)
  have 3: "isPrivateIP (JString ''::1'')"
    by (simp add: isPrivateIP_def isPrivateIP_string_def startsWith_def)
  have 4: "isPrivateIP (JString (p @ s))"
    if "p = ''fe80'' \<or> p = ''fc'' \<or> p = ''fd''" for p
  proof -
    have "\<not> startsWith (p @ s) ''::ffff:''" using that by (auto simp: startsWith_def)
    moreover have "startsWith (p @ s) ''fe80'' \<or> startsWith (p @ s) ''fc'' \<or> startsWith (p @ s) ''fd''"
      using that by (auto simp: startsWith_def)
    ultimately show ?thesis
      by (auto simp: isPrivateIP_def isPrivateIP_string_def Let_def)
  qed
  show ?thesis
    using 3 4 [of "''fe80''"] 4 [of "''fc''"] 4 [of "''fd''"]
    by (simp only: 1 2 isPrivateIP_string_mapped isPrivateIP_string_dotted_quad) simp
qed

theorem C2_isPrivateIP_witness:
  "isPrivateIP (JString ''10.0.0.1'') \<and> isPrivateIP (JString ''172.20.0.1'')
   \<and> isPrivateIP (JString ''192.168.1.1'') \<and> isPrivateIP (JString ''127.0.0.1'')
   \<and> isPrivateIP (JString ''169.254.1.1'') \<and> \<not> isPrivateIP (JString ''8.8.8.8'')
   \<and> isPrivateIP (JString ''::ffff:192.168.1.1'') \<and> \<not> isPrivateIP (JString ''::ffff:8.8.8.8'')
   \<and> isPrivateIP (JString ''fe80::1'')"
proof -
  have q: "dotted_quad 10 0 0 1 = ''10.0.0.1''" "dotted_quad 172 20 0 1 = ''172.20.0.1''"
    "dotted_quad 192 168 1 1 = ''192.168.1.1''" "dotted_quad 127 0 0 1 = ''127.0.0.1''"
    "dotted_quad 169 254 1 1 = ''169.254.1.1''" "dotted_quad 8 8 8 8 = ''8.8.8.8''"
    by code_simp+
  show ?thesis
    using C2_isPrivateIP_ranges [of 10 0 0 1 "''::1''", unfolded q]
      C2_isPrivateIP_ranges [of 172 20 0 1 "[]", unfolded q]
      C2_isPrivateIP_ranges [of 192 168 1 1 "[]", unfolded q]
      C2_isPrivateIP_ranges [of 127 0 0 1 "[]", unfolded q]
      C2_isPrivateIP_ranges [of 169 254 1 1 "[]", unfolded q]
      C2_isPrivateIP_ranges [of 8 8 8 8 "[]", unfolded q]
    by simp
qed

text \<open>
  Claim C10. \<open>isPrivateIP\<close> is true of an undefined, null or empty address, so a
  resolved entry without an address makes the guard deny the hostname.
\<close>

theorem C10_missing_address_is_private:
  "isPrivateIP JUndefined \<and> isPrivateIP JNull \<and> isPrivateIP (JString [])
   \<and> (dns h = Inr addrs \<longrightarrow> a \<in> set addrs \<longrightarrow> address a \<in> {JUndefined, JNull, JString []}
        \<longrightarrow> \<not> resolveAndCheck dns h)"
proof -
  have p: "isPrivateIP v" if "v \<in> {JUndefined, JNull, JString []}" for v
    using that by (auto simp: isPrivateIP_def)
  have "\<not> resolveAndCheck dns h"
    if "dns h = Inr addrs" "a \<in> set addrs" "address a \<in> {JUndefined, JNull, JString []}"
    using that p [of "address a"] by (auto simp: resolveAndCheck_def check_addresses_iff)
  with p show ?thesis by blast
qed

theorem C10_missing_address_witness:
  "example_dns_absent ''x.com''
     = Inr [\<lparr>address = JString ''93.184.216.34'', family = 4\<rparr>, \<lparr>address = JUndefined, family = 0\<rparr>]
   \<and> \<not> resolveAndCheck example_dns_absent ''x.com''"
  using C10_missing_address_is_private [of example_dns_absent "''x.com''"
      "[\<lparr>address = JString ''93.184.216.34'', family = 4\<rparr>, \<lparr>address = JUndefined, family = 0\<rparr>]"
      "\<lparr>address = JUndefined, family = 0\<rparr>"]
  by (simp add: example_dns_absent_def)

section \<open>Properties of the rewriting\<close>

text \<open>
  Claim C3. For every URL parser and base, a value whose lower-cased form starts with
  \<open>data:\<close>, \<open>javascript:\<close>, \<open>mailto:\<close>, \<open>tel:\<close> or \<open>#\<close> is returned unchanged by
  \<open>resolveAndProxy\<close>, in both variants of the function.
\<close>

theorem C3_skip_scheme_unchanged:
  assumes "p \<in> {''data:'', ''javascript:'', ''mailto:'', ''tel:'', ''#''}"
    and "prefix p (toLowerCase val)"
  shows "resolveAndProxy U base val = val \<and> resolveAndProxy_cjs U base val = val"
proof -
  have "skip_scheme val" using assms unfolding skip_scheme_def by auto
  then show ?thesis by (simp add: resolveAndProxy_def resolveAndProxy_cjs_def)
qed

theorem C3_skip_scheme_witness:
  "resolveAndProxy example_URL_toString ''http://x.com/c/'' ''JavaScript:alert(1)'' = ''JavaScript:alert(1)''
   \<and> resolveAndProxy_cjs example_URL_toString ''http://x.com/c/'' ''#frag'' = ''#frag''"
proof -
  have 1: "prefix ''javascript:'' (toLowerCase ''JavaScript:alert(1)'')" by code_simp
  have 2: "prefix ''#'' (toLowerCase ''#frag'')" by code_simp
  show ?thesis
    using C3_skip_scheme_unchanged [of "''javascript:''" "''JavaScript:alert(1)''"
        example_URL_toString "''http://x.com/c/''", OF _ 1]
      C3_skip_scheme_unchanged [of "''#''" "''#frag''" example_URL_toString "''http://x.com/c/''", OF _ 2]
    by simp
qed

text \<open>
  Claim C4. For every URL parser, base and value on which the parser throws,
  \<open>resolveAndProxy\<close> returns the value (the exception is caught in the function, which
  has no other result than a string), in both variants; an attribute that holds such a
  value keeps it through the rewriting callbacks.
\<close>

theorem C4_malformed_unchanged:
  assumes "U val base = None"
  shows "resolveAndProxy U base val = val \<and> resolveAndProxy_cjs U base val = val
    \<and> (map_of as k = Some val \<longrightarrow>
         map_of (rewrite_attr U base k as) k = Some val
         \<and> map_of (rewrite_attr_cjs U base k as) k = Some val)
    \<and> (map_of as ''href'' = Some val \<longrightarrow> map_of (rewrite_anchor U base as) ''href'' = Some val)"
proof -
  have 1: "resolveAndProxy U base val = val" "resolveAndProxy_cjs U base val = val"
    using assms by (simp_all add: resolveAndProxy_def resolveAndProxy_cjs_def)
  show ?thesis
    by (simp add: 1 rewrite_attr_def rewrite_attr_cjs_def rewrite_anchor_def update_conv')
qed

theorem C4_malformed_witness:
  "example_URL_toString ''http://['' ''http://x.com/c/'' = None
   \<and> resolveAndProxy example_URL_toString ''http://x.com/c/'' ''http://['' = ''http://[''
   \<and> resolveAndProxy_cjs example_URL_toString ''http://x.com/c/'' ''http://['' = ''http://[''
   \<and> map_of (rewrite_anchor example_URL_toString ''http://x.com/c/'' [(''href'', ''http://['')]) ''href''
       = Some ''http://[''"
proof -
  have n: "example_URL_toString ''http://['' ''http://x.com/c/'' = None"
    by (simp add: example_URL_toString_def)
  have m: "map_of [(''href'', ''http://['')] ''href'' = Some ''http://[''"
    by simp
  from C4_malformed_unchanged [of example_URL_toString "''http://[''" "''http://x.com/c/''"
      "[(''href'', ''http://['')]" "''href''"] n m
  show ?thesis by blast
qed

section \<open>The base64 round trip\<close>

lemma index_of_nth: "distinct xs \<Longrightarrow> i < length xs \<Longrightarrow> index_of (xs ! i) xs = Some i"
proof (induction xs arbitrary: i)
  case Nil
  then show ?case by simp
next
  case (Cons x xs)
  show ?case
  proof (cases i)
    case 0
    then show ?thesis by simp
  next
    case (Suc j)
    with Cons.prems have "xs ! j \<noteq> x" by auto
    with Suc Cons show ?thesis by simp
  qed
qed

lemma distinct_base64_alphabet: "distinct base64_alphabet"
  by (simp add: base64_alphabet_def)

lemma length_base64_alphabet: "length base64_alphabet = 64"
  by (simp add: base64_alphabet_def)

lemma index_of_base64_char: "i < 64 \<Longrightarrow> index_of (base64_char i) base64_alphabet = Some i"
  unfolding base64_char_def
  by (rule index_of_nth) (simp_all add: distinct_base64_alphabet length_base64_alphabet)

lemma pad_not_in_alphabet: "CHR ''='' \<notin> set base64_alphabet"
  by (simp add: base64_alphabet_def)

lemma base64_char_not_pad: "i < 64 \<Longrightarrow> base64_char i \<noteq> CHR ''=''"
  unfolding base64_char_def
  using pad_not_in_alphabet nth_mem [of i base64_alphabet]
  by (metis length_base64_alphabet)

lemma sextets2: "x < 64 \<Longrightarrow> y < 64 \<Longrightarrow> sextets [base64_char x, base64_char y] = Some [x, y]"
  by (simp add: sextets_def index_of_base64_char)

lemma sextets3: "x < 64 \<Longrightarrow> y < 64 \<Longrightarrow> z < 64 \<Longrightarrow>
   sextets [base64_char x, base64_char y, base64_char z] = Some [x, y, z]"
  by (simp add: sextets_def index_of_base64_char)

lemma sextets4: "x < 64 \<Longrightarrow> y < 64 \<Longrightarrow> z < 64 \<Longrightarrow> w < 64 \<Longrightarrow>
   sextets [base64_char x, base64_char y, base64_char z, base64_char w] = Some [x, y, z, w]"
  by (simp add: sextets_def index_of_base64_char)

lemma unat_byte: "unat (a :: byte) < 256"
  using unsigned_less [of a] by simp

lemma div_stack: "(n::nat) div (a * b) * b + n div a mod b = n div a"
  by (simp add: div_mult2_eq)


lemma sextets_of_two_bytes: "(n div 1024 * 64 + n div 16 mod 64) * 64 + n mod 16 * 4 = (n::nat) * 4"
proof -
  have h: "n div 1024 * 64 + n div 16 mod 64 = n div 16"
    using div_stack [of n 16 64] by simp
  have g: "x * 64 + y * 4 = (x * 16 + y) * 4" for x y :: nat by simp
  show ?thesis unfolding h g div_mult_mod_eq ..
qed

lemma sextets_of_three_bytes: "((n div 262144 * 64 + n div 4096 mod 64) * 64 + n div 64 mod 64) * 64 + n mod 64 = (n::nat)"
proof -
  have h1: "n div 262144 * 64 + n div 4096 mod 64 = n div 4096"
    using div_stack [of n 4096 64] by simp
  have h2: "n div 4096 * 64 + n div 64 mod 64 = n div 64"
    using div_stack [of n 64 64] by simp
  show ?thesis unfolding h1 h2 div_mult_mod_eq ..
qed

lemma sextets_of_byte: "n div 4 * 64 + n mod 4 * 16 = (n::nat) * 16"
proof -
  have g: "x * 64 + y * 16 = (x * 4 + y) * 16" for x y :: nat by simp
  show ?thesis unfolding g div_mult_mod_eq ..
qed


lemma bounds1: "n < 256 \<Longrightarrow> n div 4 < (64::nat)" "n mod 4 * 16 < (64::nat)"
proof -
  show "n < 256 \<Longrightarrow> n div 4 < 64" by (rule less_mult_imp_div_less) simp
  have "n mod 4 < 4" by simp
  then show "n mod 4 * 16 < 64" by linarith
qed

lemma bounds2: "n < 65536 \<Longrightarrow> n div 1024 < (64::nat)" "n mod 16 * 4 < (64::nat)"
proof -
  show "n < 65536 \<Longrightarrow> n div 1024 < 64" by (rule less_mult_imp_div_less) simp
  have "n mod 16 < 16" by simp
  then show "n mod 16 * 4 < 64" by linarith
qed

lemma bounds3: "n < 16777216 \<Longrightarrow> n div 262144 < (64::nat)"
  by (rule less_mult_imp_div_less) simp

lemma byte_of_unat: "(of_nat (unat a) :: byte) = a"
  by simp

lemma decode1: "base64_decode (base64 [a]) = Some [a]"
proof -
  have s: "unat a div 4 < 64" "unat a mod 4 * 16 < 64"
    using unat_byte [of a] by (simp_all only: bounds1)
  have "base64_decode (base64 [a])
      = Some [of_nat ((unat a div 4 * 64 + unat a mod 4 * 16) div 16)]"
    by (simp add: Let_def sextets2 [OF s])
  also have "\<dots> = Some [a]" unfolding sextets_of_byte by simp
  finally show ?thesis .
qed


lemma mod_lt64: "(n::nat) mod 64 < 64"
  by simp

lemma decode2: "base64_decode (base64 [a, b]) = Some [a, b]"
proof -
  define n where "n = unat a * 256 + unat b"
  have ab: "unat a < 256" "unat b < 256" by (rule unat_byte)+
  then have n: "n < 65536" unfolding n_def by linarith
  have s: "n div 1024 < 64" "n div 16 mod 64 < 64" "n mod 16 * 4 < 64"
    using n by (simp_all only: bounds2 mod_lt64)
  have da: "n * 4 div 1024 = unat a" using ab(2) by (simp add: n_def)
  have z: "(256 :: byte) = 0" by simp
  have db: "(of_nat n :: byte) = b" by (simp add: n_def z)
  have "base64_decode (base64 [a, b])
      = Some [of_nat (((n div 1024 * 64 + n div 16 mod 64) * 64 + n mod 16 * 4) div 1024),
              of_nat (((n div 1024 * 64 + n div 16 mod 64) * 64 + n mod 16 * 4) div 4)]"
    using base64_char_not_pad [OF s(3)]
    by (simp add: Let_def n_def [symmetric] sextets3 [OF s])
  also have "\<dots> = Some [a, b]" unfolding sextets_of_two_bytes da by (simp add: db)
  finally show ?thesis .
qed


lemma decode3:
  "base64_decode (base64 (a # b # c # r)) =
     (case base64_decode (base64 r) of None \<Rightarrow> None | Some bs \<Rightarrow> Some (a # b # c # bs))"
proof -
  define n where "n = unat a * 65536 + unat b * 256 + unat c"
  have abc: "unat a < 256" "unat b < 256" "unat c < 256" by (rule unat_byte)+
  then have n: "n < 16777216" unfolding n_def by linarith
  have s: "n div 262144 < 64" "n div 4096 mod 64 < 64" "n div 64 mod 64 < 64" "n mod 64 < 64"
    using n by (simp_all only: bounds3 mod_lt64)
  have z: "(256 :: byte) = 0" "(65536 :: byte) = 0" by simp_all
  have da: "n div 65536 = unat a" using abc(2,3) by (simp add: n_def)
  have "n div 256 = unat a * 256 + unat b" using abc(3) by (simp add: n_def)
  then have db: "(of_nat (n div 256) :: byte) = b" by (simp add: z)
  have dc: "(of_nat n :: byte) = c" by (simp add: n_def z)
  have "base64_decode (base64 (a # b # c # r))
      = (case base64_decode (base64 r) of
           None \<Rightarrow> None
         | Some bs \<Rightarrow>
             Some (of_nat ((((n div 262144 * 64 + n div 4096 mod 64) * 64 + n div 64 mod 64) * 64
                            + n mod 64) div 65536)
                   # of_nat ((((n div 262144 * 64 + n div 4096 mod 64) * 64 + n div 64 mod 64) * 64
                            + n mod 64) div 256)
                   # of_nat (((n div 262144 * 64 + n div 4096 mod 64) * 64 + n div 64 mod 64) * 64
                            + n mod 64)
                   # bs))"
    using base64_char_not_pad [OF s(3)] base64_char_not_pad [OF s(4)]
    by (simp add: Let_def n_def [symmetric] sextets4 [OF s] split: option.splits)
  also have "\<dots> = (case base64_decode (base64 r) of None \<Rightarrow> None
                      | Some bs \<Rightarrow> Some (a # b # c # bs))"
    unfolding sextets_of_three_bytes da db dc byte_of_unat ..
  finally show ?thesis .
qed

lemma base64_roundtrip: "base64_decode (base64 bs) = Some bs"
proof (induction bs rule: base64.induct)
  case 1
  show ?case by simp
next
  case (2 a)
  show ?case by (rule decode1)
next
  case (3 a b)
  show ?case by (rule decode2)
next
  case (4 a b c r)
  then show ?case by (simp only: decode3 option.case)
qed

section \<open>The rewriting, element by element\<close>

lemma matches_map_elements:
  assumes "\<And>name as. s name (g name as) = s name as"
  shows "matches s (map_elements g n) = matches s n"
  by (cases n) (simp_all add: matches_def assms)

lemma matches_remove_below: "matches s (remove_below s' n) = matches s n"
  by (cases n) (simp_all add: matches_def)

lemma remove_below_map_elements:
  assumes "\<And>name as. s name (g name as) = s name as"
  shows "remove_below s (map_elements g n) = map_elements g (remove_below s n)"
proof (induction n)
  case (Element name as cs)
  have "filter (\<lambda>c. \<not> matches s c) (map (remove_below s) (map (map_elements g) cs))
      = map (map_elements g) (filter (\<lambda>c. \<not> matches s c) (map (remove_below s) cs))"
    using Element
    by (induction cs) (simp_all add: matches_remove_below matches_map_elements [of s g, OF assms])
  then show ?case by simp
next
  case (Text t)
  show ?case by simp
qed

lemma remove_map_elements:
  assumes "\<And>name as. s name (g name as) = s name as"
  shows "remove s (map (map_elements g) doc) = map (map_elements g) (remove s doc)"
  unfolding remove_def
  by (induction doc)
    (simp_all add: remove_below_map_elements [of s g, OF assms] matches_remove_below
      matches_map_elements [of s g, OF assms])

lemma tree_rel_map_elements:
  assumes "\<And>name as. R (name, as) (name, g name as)"
  shows "tree_rel R n (map_elements g n)"
proof (induction n)
  case (Element name as cs)
  then have "forest_rel R cs (map (map_elements g) cs)"
    by (induction cs) simp_all
  then show ?case by (simp add: assms)
next
  case (Text t)
  show ?case by simp
qed

lemma forest_rel_map_elements:
  assumes "\<And>name as. R (name, as) (name, g name as)"
  shows "forest_rel R doc (map (map_elements g) doc)"
  by (induction doc) (simp_all add: tree_rel_map_elements [of R g, OF assms])

lemma filter_update:
  "k \<in> K \<Longrightarrow> filter (\<lambda>p. fst p \<notin> K) (AList.update k v al) = filter (\<lambda>p. fst p \<notin> K) al"
  by (induction al) auto

lemma resolveAndProxy_Nil: "resolveAndProxy U target [] = []" "resolveAndProxy_cjs U target [] = []"
  by (simp_all add: resolveAndProxy_def resolveAndProxy_cjs_def)

lemma map_of_rewrite_attr:
  "map_of (rewrite_attr U target k as) k' =
     (if k' = k then map_option (resolveAndProxy U target) (map_of as k) else map_of as k')"
  by (simp add: rewrite_attr_def update_conv' resolveAndProxy_Nil split: option.splits)

lemma filter_rewrite_attr:
  "k \<in> K \<Longrightarrow> filter (\<lambda>p. fst p \<notin> K) (rewrite_attr U target k as) = filter (\<lambda>p. fst p \<notin> K) as"
  by (simp add: rewrite_attr_def filter_update split: option.splits)

lemma map_of_rewrite_attr_cjs:
  "map_of (rewrite_attr_cjs U target k as) k' =
     (if k' = k then map_option (resolveAndProxy_cjs U target) (map_of as k) else map_of as k')"
  by (simp add: rewrite_attr_cjs_def update_conv' split: option.splits)

lemma filter_rewrite_attr_cjs:
  "k \<in> K \<Longrightarrow> filter (\<lambda>p. fst p \<notin> K) (rewrite_attr_cjs U target k as) = filter (\<lambda>p. fst p \<notin> K) as"
  by (simp add: rewrite_attr_cjs_def filter_update split: option.splits)

lemma map_of_rewrite_anchor:
  "map_of (rewrite_anchor U target as) k =
     (if k = ''href'' then map_option (resolveAndProxy U target) (map_of as ''href'')
      else if k = ''rel'' \<and> (case map_of as ''href'' of None \<Rightarrow> False | Some h \<Rightarrow> h \<noteq> [])
      then Some ''noreferrer noopener''
      else map_of as k)"
  by (simp add: rewrite_anchor_def update_conv' resolveAndProxy_Nil split: option.splits)

lemma filter_rewrite_anchor:
  "''href'' \<in> K \<Longrightarrow> ''rel'' \<in> K \<Longrightarrow>
   filter (\<lambda>p. fst p \<notin> K) (rewrite_anchor U target as) = filter (\<lambda>p. fst p \<notin> K) as"
  by (simp add: rewrite_anchor_def filter_update split: option.splits)

lemma map_of_rewrite_element:
  "map_of (rewrite_element U target name as) k =
     (if (k = ''href'' \<and> (name = ''a'' \<or> name = ''link'')) \<or> k = ''src''
      then map_option (resolveAndProxy U target) (map_of as k)
      else if k = ''rel'' \<and> name = ''a''
              \<and> (case map_of as ''href'' of None \<Rightarrow> False | Some h \<Rightarrow> h \<noteq> [])
      then Some ''noreferrer noopener''
      else map_of as k)"
  by (auto simp: rewrite_element_def Let_def sel_a_def sel_src_def sel_link_href_def
      map_of_rewrite_anchor map_of_rewrite_attr)

lemma filter_rewrite_element:
  "filter (\<lambda>p. fst p \<notin> {''href'', ''src'', ''rel''}) (rewrite_element U target name as)
     = filter (\<lambda>p. fst p \<notin> {''href'', ''src'', ''rel''}) as"
proof -
  define K :: "string set" where "K = {''href'', ''src'', ''rel''}"
  have k: "''href'' \<in> K" "''src'' \<in> K" "''rel'' \<in> K" by (simp_all add: K_def)
  have "filter (\<lambda>p. fst p \<notin> K) (rewrite_element U target name as) = filter (\<lambda>p. fst p \<notin> K) as"
    by (simp add: rewrite_element_def Let_def filter_rewrite_anchor filter_rewrite_attr k)
  then show ?thesis unfolding K_def .
qed

lemma rewritten_rewrite_element:
  "rewritten U target (name, as) (name, rewrite_element U target name as)"
  unfolding rewritten_def fst_conv snd_conv
  by (intro conjI filter_rewrite_element) (simp_all add: map_of_rewrite_element)

lemma map_of_rewrite_element_cjs:
  "map_of (rewrite_element_cjs U target name as) k =
     (if (k = ''href'' \<and> (name = ''a'' \<or> name = ''link'')) \<or> k = ''src''
      then map_option (resolveAndProxy_cjs U target) (map_of as k)
      else map_of as k)"
  by (auto simp: rewrite_element_cjs_def Let_def sel_a_href_def sel_src_def sel_link_href_def
      map_of_rewrite_attr_cjs)

lemma filter_rewrite_element_cjs:
  "filter (\<lambda>p. fst p \<notin> {''href'', ''src''}) (rewrite_element_cjs U target name as)
     = filter (\<lambda>p. fst p \<notin> {''href'', ''src''}) as"
proof -
  define K :: "string set" where "K = {''href'', ''src''}"
  have k: "''href'' \<in> K" "''src'' \<in> K" by (simp_all add: K_def)
  have "filter (\<lambda>p. fst p \<notin> K) (rewrite_element_cjs U target name as) = filter (\<lambda>p. fst p \<notin> K) as"
    by (simp add: rewrite_element_cjs_def Let_def filter_rewrite_attr_cjs k)
  then show ?thesis unfolding K_def .
qed

lemma rewritten_cjs_rewrite_element:
  "rewritten_cjs U target (name, as) (name, rewrite_element_cjs U target name as)"
  unfolding rewritten_cjs_def fst_conv snd_conv
  by (intro conjI filter_rewrite_element_cjs) (simp_all add: map_of_rewrite_element_cjs)

lemma sel_meta_csp_rewrite_element:
  "sel_meta_csp veq name (rewrite_element U target name as) = sel_meta_csp veq name as"
  "sel_meta_csp veq name (rewrite_element_cjs U target name as) = sel_meta_csp veq name as"
  by (simp_all add: sel_meta_csp_def map_of_rewrite_element map_of_rewrite_element_cjs)

lemma each_each_each:
  "each s3 f3 (each s2 f2 (each s1 f1 n)) =
     map_elements (\<lambda>name as.
        let as1 = (if s1 name as then f1 as else as);
            as2 = (if s2 name as1 then f2 as1 else as1)
        in if s3 name as2 then f3 as2 else as2) n"
  by (induction n) (simp_all add: Let_def)

lemma rewrite_element_fun:
  "rewrite_element U target = (\<lambda>name as.
        let as1 = (if sel_a name as then rewrite_anchor U target as else as);
            as2 = (if sel_src name as1 then rewrite_attr U target ''src'' as1 else as1)
        in if sel_link_href name as2 then rewrite_attr U target ''href'' as2 else as2)"
  "rewrite_element_cjs U target = (\<lambda>name as.
        let as1 = (if sel_a_href name as then rewrite_attr_cjs U target ''href'' as else as);
            as2 = (if sel_src name as1 then rewrite_attr_cjs U target ''src'' as1 else as1)
        in if sel_link_href name as2 then rewrite_attr_cjs U target ''href'' as2 else as2)"
  by (intro ext, simp only: rewrite_element_def rewrite_element_cjs_def)+

lemma rewrite_document_elements:
  "rewrite_document U veq target doc =
     map (map_elements (rewrite_element U target)) (remove (sel_meta_csp veq) doc)"
proof -
  have "map (each sel_link_href (rewrite_attr U target ''href''))
          (map (each sel_src (rewrite_attr U target ''src''))
             (map (each sel_a (rewrite_anchor U target)) doc))
      = map (map_elements (rewrite_element U target)) doc"
    unfolding rewrite_element_fun(1) by (simp add: each_each_each)
  then show ?thesis
    unfolding rewrite_document_def Let_def
    by (simp only: remove_map_elements [of "sel_meta_csp veq" "rewrite_element U target",
          OF sel_meta_csp_rewrite_element(1)])
qed

lemma rewrite_document_cjs_elements:
  "rewrite_document_cjs U veq target doc =
     map (map_elements (rewrite_element_cjs U target)) (remove (sel_meta_csp veq) doc)"
proof -
  have "map (each sel_link_href (rewrite_attr_cjs U target ''href''))
          (map (each sel_src (rewrite_attr_cjs U target ''src''))
             (map (each sel_a_href (rewrite_attr_cjs U target ''href'')) doc))
      = map (map_elements (rewrite_element_cjs U target)) doc"
    unfolding rewrite_element_fun(2) by (simp add: each_each_each)
  then show ?thesis
    unfolding rewrite_document_cjs_def Let_def
    by (simp only: remove_map_elements [of "sel_meta_csp veq" "rewrite_element_cjs U target",
          OF sel_meta_csp_rewrite_element(2)])
qed

lemma rewrite_document_rewritten:
  "forest_rel (rewritten U target) (remove (sel_meta_csp veq) doc) (rewrite_document U veq target doc)"
  unfolding rewrite_document_elements
  by (rule forest_rel_map_elements) (rule rewritten_rewrite_element)

lemma rewrite_document_cjs_rewritten:
  "forest_rel (rewritten_cjs U target) (remove (sel_meta_csp veq) doc)
     (rewrite_document_cjs U veq target doc)"
  unfolding rewrite_document_cjs_elements
  by (rule forest_rel_map_elements) (rule rewritten_cjs_rewrite_element)

lemma select_map_elements:
  assumes "\<And>name as. s name (g name as) = s name as"
  shows "select s (map_elements g n) = map (\<lambda>e. (fst e, g (fst e) (snd e))) (select s n)"
proof (induction n)
  case (Element name as cs)
  then have "concat (map (select s) (map (map_elements g) cs))
      = concat (map (\<lambda>c. map (\<lambda>e. (fst e, g (fst e) (snd e))) (select s c)) cs)"
    by (simp cong: map_cong)
  then show ?case by (simp add: assms map_concat comp_def)
next
  case (Text t)
  show ?case by simp
qed

lemma select_remove_below_self: "\<not> matches s n \<Longrightarrow> select s (remove_below s n) = []"
proof (induction n)
  case (Element name as cs)
  have "select s c' = []"
    if "c' \<in> set (filter (\<lambda>c. \<not> matches s c) (map (remove_below s) cs))" for c'
  proof -
    from that obtain c where c: "c \<in> set cs" "c' = remove_below s c" "\<not> matches s c'"
      by auto
    then have "\<not> matches s c" by (simp add: matches_remove_below)
    with c Element.IH show ?thesis by simp
  qed
  moreover from Element.prems have "\<not> s name as" by (simp add: matches_def)
  ultimately show ?case by simp
next
  case (Text t)
  show ?case by simp
qed

lemma select_remove_self: "concat (map (select s) (remove s doc)) = []"
proof -
  have "select s c' = []" if "c' \<in> set (remove s doc)" for c'
  proof -
    from that obtain c where c: "c' = remove_below s c" "\<not> matches s c'"
      unfolding remove_def by auto
    then have "\<not> matches s c" by (simp add: matches_remove_below)
    with c show ?thesis by (simp add: select_remove_below_self)
  qed
  then show ?thesis by simp
qed

lemma no_csp_meta_left:
  "concat (map (select (sel_meta_csp veq)) (rewrite_document U veq target doc)) = []"
  "concat (map (select (sel_meta_csp veq)) (rewrite_document_cjs U veq target doc)) = []"
proof -
  have g: "concat (map (select s) (map (map_elements g) d)) = []"
    if "\<And>name as. s name (g name as) = s name as" "concat (map (select s) d) = []"
    for s g and d :: "node list"
    using that(2) by (simp add: select_map_elements [of s g, OF that(1)])
  show "concat (map (select (sel_meta_csp veq)) (rewrite_document U veq target doc)) = []"
    unfolding rewrite_document_elements
    by (rule g [of "sel_meta_csp veq" "rewrite_element U target",
        OF sel_meta_csp_rewrite_element(1) select_remove_self])
  show "concat (map (select (sel_meta_csp veq)) (rewrite_document_cjs U veq target doc)) = []"
    unfolding rewrite_document_cjs_elements
    by (rule g [of "sel_meta_csp veq" "rewrite_element_cjs U target",
        OF sel_meta_csp_rewrite_element(2) select_remove_self])
qed

section \<open>Properties of the handlers\<close>

lemma forEach_header_calls:
  "forEach_header hs res =
     res\<lparr>res_set_calls := res_set_calls res @ filter (\<lambda>h. toLowerCase (fst h) \<notin> set banned) hs\<rparr>"
  by (induction hs arbitrary: res) (simp_all add: res_set_def)

lemma proxy_route_fetched:
  assumes "authorized rt AL req target"
    and "fetch rt (href target) (or_else (user_agent req) ''OmniProxy/1.0'') = Inr up"
  shows "fst (proxy_route rt AL req res) =
     (if includes_str (or_else (headers_get (up_headers up) ''content-type'') []) ''text/html''
      then res\<lparr>res_status := up_status up,
               res_set_calls := res_set_calls res
                  @ filter (\<lambda>h. toLowerCase (fst h) \<notin> set banned) (up_headers up)
                  @ [(''content-type'', ''text/html; charset=utf-8'')],
               res_body := Sent (inject_base (origin target) (response_text rt (up_body up)))\<rparr>
      else res\<lparr>res_status := up_status up,
               res_set_calls := res_set_calls res
                  @ filter (\<lambda>h. toLowerCase (fst h) \<notin> set banned) (up_headers up),
               res_body := Piped (up_body up)\<rparr>)"
  using assms unfolding authorized_def proxy_route_def
  by (auto simp: Let_def forEach_header_calls res_set_def)

lemma handler_fetched:
  assumes "valid_target event target"
    and "fetch rt target (or_else (map_of (event_headers event) ''user-agent'') ''SleekProxy-Netlify/1.0'') = Inr up"
  shows "fst (handler rt event) =
     (if includes_str (toLowerCase (or_else (headers_get (up_headers up) ''content-type'') [])) ''text/html''
      then \<lparr>statusCode = (if up_status up = 0 then 200 else up_status up),
            headers = [(''Content-Type'', ''text/html; charset=utf-8'')],
            body = cheerio_html rt (add_topbar (cheerio_parse rt (topbar target))
                     (rewrite_document (URL_toString rt) (attr_value_eq rt) target
                        (cheerio_load rt (response_text rt (up_body up))))),
            isBase64Encoded = False\<rparr>
      else \<lparr>statusCode = (if up_status up = 0 then 200 else up_status up),
            headers = [(''Content-Type'',
                        if or_else (headers_get (up_headers up) ''content-type'') [] = []
                        then ''application/octet-stream''
                        else or_else (headers_get (up_headers up) ''content-type'') []),
                       (''Cache-Control'', ''max-age=3600'')],
            body = base64 (up_body up), isBase64Encoded = True\<rparr>)"
proof -
  from assms(1) have t:
    "or_else (map_of (case queryStringParameters event of None \<Rightarrow> [] | Some q \<Rightarrow> q) ''url'') [] = target"
    "target \<noteq> []" "http_scheme target"
    unfolding valid_target_def by blast+
  show ?thesis
    unfolding handler_def Let_def t using t(2,3) assms(2) by simp
qed

lemma handler_cjs_fetched:
  assumes "valid_target event target"
    and "fetch rt target (or_else (map_of (event_headers event) ''user-agent'') ''SleekProxy/1.0'') = Inr up"
  shows "fst (handler_cjs rt event) =
     (if includes_str (toLowerCase (or_else (headers_get (up_headers up) ''content-type'') [])) ''text/html''
      then \<lparr>statusCode = (if up_status up = 0 then 200 else up_status up),
            headers = [(''Content-Type'', ''text/html; charset=utf-8'')],
            body = cheerio_html rt (map (prepend sel_body (cheerio_parse rt (topbar_cjs target)))
                     (rewrite_document_cjs (URL_toString rt) (attr_value_eq rt) target
                        (cheerio_load rt (response_text rt (up_body up))))),
            isBase64Encoded = False\<rparr>
      else \<lparr>statusCode = (if up_status up = 0 then 200 else up_status up),
            headers = [(''Content-Type'', or_else (headers_get (up_headers up) ''content-type'') []),
                       (''Cache-Control'', ''max-age=3600'')],
            body = base64 (up_body up), isBase64Encoded = True\<rparr>)"
proof -
  from assms(1) have t:
    "or_else (map_of (case queryStringParameters event of None \<Rightarrow> [] | Some q \<Rightarrow> q) ''url'') [] = target"
    "target \<noteq> []" "http_scheme target"
    unfolding valid_target_def by blast+
  show ?thesis
    unfolding handler_cjs_def Let_def t using t(2,3) assms(2) by simp
qed

lemma banned_set:
  "set banned = {''content-security-policy'', ''content-security-policy-report-only'',
     ''x-frame-options'', ''set-cookie'', ''set-cookie2'', ''strict-transport-security''}"
  by (simp add: banned_def)

text \<open>
  Claim C5. For every request that passes the tests of the route and every upstream
  response, the calls of \<open>res.set\<close> made on the response are those for the upstream
  headers whose lower-cased name is none of \<open>content-security-policy\<close>,
  \<open>content-security-policy-report-only\<close>, \<open>x-frame-options\<close>, \<open>set-cookie\<close>,
  \<open>set-cookie2\<close>, \<open>strict-transport-security\<close>, each with its name and value and in
  the upstream order, followed by the content type of a rewritten page.
\<close>

theorem C5_relayed_headers:
  assumes "authorized rt AL req target"
    and "fetch rt (href target) (or_else (user_agent req) ''OmniProxy/1.0'') = Inr up"
  shows "res_set_calls (fst (proxy_route rt AL req res)) =
     res_set_calls res
     @ filter (\<lambda>h. toLowerCase (fst h) \<notin>
                {''content-security-policy'', ''content-security-policy-report-only'',
                 ''x-frame-options'', ''set-cookie'', ''set-cookie2'', ''strict-transport-security''})
         (up_headers up)
     @ (if includes_str (or_else (headers_get (up_headers up) ''content-type'') []) ''text/html''
        then [(''content-type'', ''text/html; charset=utf-8'')] else [])"
  by (simp add: proxy_route_fetched [OF assms] banned_set)

theorem C5_relayed_headers_witness:
  "res_set_calls (fst (proxy_route example_runtime [] (example_request ''http://x.com/logo.png'') example_response))
     = [(''content-type'', ''image/png''), (''etag'', ''abc'')]"
proof -
  have a: "authorized example_runtime [] (example_request ''http://x.com/logo.png'')
    \<lparr>protocol = ''http:'', hostname = ''x.com'', origin = ''http://x.com'', href = ''http://x.com/logo.png''\<rparr>"
    by code_simp
  have f: "fetch example_runtime
      (href \<lparr>protocol = ''http:'', hostname = ''x.com'', origin = ''http://x.com'', href = ''http://x.com/logo.png''\<rparr>)
      (or_else (user_agent (example_request ''http://x.com/logo.png'')) ''OmniProxy/1.0'') = Inr example_image"
    by code_simp
  have e: "res_set_calls example_response
     @ filter (\<lambda>h. toLowerCase (fst h) \<notin>
                {''content-security-policy'', ''content-security-policy-report-only'',
                 ''x-frame-options'', ''set-cookie'', ''set-cookie2'', ''strict-transport-security''})
         (up_headers example_image)
     @ (if includes_str (or_else (headers_get (up_headers example_image) ''content-type'') []) ''text/html''
        then [(''content-type'', ''text/html; charset=utf-8'')] else [])
     = [(''content-type'', ''image/png''), (''etag'', ''abc'')]"
    by code_simp
  show ?thesis
    using C5_relayed_headers [OF a f, of example_response] unfolding e .
qed

lemma handler_missing:
  assumes "or_else (map_of (case queryStringParameters event of None \<Rightarrow> [] | Some q \<Rightarrow> q) ''url'') [] = []"
  shows "handler rt event =
    (\<lparr>statusCode = 400, headers = [],
      body = ''Missing url parameter. Usage: /.netlify/functions/proxy?url=https://example.com'',
      isBase64Encoded = False\<rparr>, [])"
  unfolding handler_def Let_def assms by simp

lemma handler_fetch_failed:
  assumes "valid_target event target"
    and "fetch rt target (or_else (map_of (event_headers event) ''user-agent'') ''SleekProxy-Netlify/1.0'') = Inl err"
  shows "fst (handler rt event) =
     \<lparr>statusCode = 500, headers = [], body = ''Proxy function error: '' @ error_text err,
      isBase64Encoded = False\<rparr>"
proof -
  from assms(1) have t:
    "or_else (map_of (case queryStringParameters event of None \<Rightarrow> [] | Some q \<Rightarrow> q) ''url'') [] = target"
    "target \<noteq> []" "http_scheme target"
    unfolding valid_target_def by blast+
  show ?thesis
    unfolding handler_def Let_def t using t(2,3) assms(2) by simp
qed

lemma proxy_route_missing:
  assumes "or_else (query_url req) [] = []"
  shows "proxy_route rt AL req res = (res\<lparr>res_status := 400, res_body := Sent ''Missing url parameter''\<rparr>, [])"
  unfolding proxy_route_def Let_def assms by (simp add: send_status_def)

lemma proxy_route_fetch_failed:
  assumes "authorized rt AL req target"
    and "fetch rt (href target) (or_else (user_agent req) ''OmniProxy/1.0'') = Inl err"
  shows "fst (proxy_route rt AL req res) = res\<lparr>res_status := 502, res_body := Sent ''Bad gateway''\<rparr>"
  using assms unfolding authorized_def proxy_route_def
  by (auto simp: Let_def send_status_def)

lemma includes_lower:
  assumes "includes_str s ''text/html''"
  shows "includes_str (toLowerCase s) ''text/html''"
proof -
  have "sublist (map toLowerCase_char ''text/html'') (map toLowerCase_char s)"
    using assms unfolding includes_str_def by (rule map_mono_sublist)
  moreover have "map toLowerCase_char ''text/html'' = ''text/html''" by code_simp
  ultimately show ?thesis by (simp add: includes_str_def toLowerCase_def)
qed

text \<open>
  Claim C6, as amended. When the \<open>url\<close> parameter is missing or empty, the Netlify
  function returns status 400 with the body that states the usage, and the route of
  server.js returns status 400 with the body \<open>Missing url parameter\<close>; neither calls
  \<open>fetch\<close>. When \<open>fetch\<close> rejects (network error or timeout), the route of server.js
  returns status 502 with the body \<open>Bad gateway\<close>, and the Netlify function returns
  status 500 with the body \<open>Proxy function error:\<close> and the message of the error.
\<close>

theorem C6_missing_url_and_fetch_failure:
  "(or_else (map_of (case queryStringParameters event0 of None \<Rightarrow> [] | Some q \<Rightarrow> q) ''url'') [] = []
      \<longrightarrow> handler rt event0 =
           (\<lparr>statusCode = 400, headers = [],
             body = ''Missing url parameter. Usage: /.netlify/functions/proxy?url=https://example.com'',
             isBase64Encoded = False\<rparr>, []))
   \<and> (valid_target event target
      \<and> fetch rt target (or_else (map_of (event_headers event) ''user-agent'') ''SleekProxy-Netlify/1.0'') = Inl err
      \<longrightarrow> statusCode (fst (handler rt event)) = 500
          \<and> body (fst (handler rt event)) = ''Proxy function error: '' @ error_text err)
   \<and> (or_else (query_url req0) [] = []
      \<longrightarrow> proxy_route rt AL req0 res
            = (res\<lparr>res_status := 400, res_body := Sent ''Missing url parameter''\<rparr>, []))
   \<and> (authorized rt AL req u
      \<and> fetch rt (href u) (or_else (user_agent req) ''OmniProxy/1.0'') = Inl err'
      \<longrightarrow> fst (proxy_route rt AL req res) = res\<lparr>res_status := 502, res_body := Sent ''Bad gateway''\<rparr>)"
proof (intro conjI impI)
  assume "or_else (map_of (case queryStringParameters event0 of None \<Rightarrow> [] | Some q \<Rightarrow> q) ''url'') [] = []"
  then show "handler rt event0 =
           (\<lparr>statusCode = 400, headers = [],
             body = ''Missing url parameter. Usage: /.netlify/functions/proxy?url=https://example.com'',
             isBase64Encoded = False\<rparr>, [])"
    by (rule handler_missing)
next
  assume a: "valid_target event target
      \<and> fetch rt target (or_else (map_of (event_headers event) ''user-agent'') ''SleekProxy-Netlify/1.0'') = Inl err"
  show "statusCode (fst (handler rt event)) = 500"
    using a by (simp add: handler_fetch_failed [of event target rt err])
  show "body (fst (handler rt event)) = ''Proxy function error: '' @ error_text err"
    using a by (simp add: handler_fetch_failed [of event target rt err])
next
  assume "or_else (query_url req0) [] = []"
  then show "proxy_route rt AL req0 res
            = (res\<lparr>res_status := 400, res_body := Sent ''Missing url parameter''\<rparr>, [])"
    by (rule proxy_route_missing)
next
  assume "authorized rt AL req u
      \<and> fetch rt (href u) (or_else (user_agent req) ''OmniProxy/1.0'') = Inl err'"
  then show "fst (proxy_route rt AL req res) = res\<lparr>res_status := 502, res_body := Sent ''Bad gateway''\<rparr>"
    by (simp add: proxy_route_fetch_failed [of rt AL req u err'])
qed

theorem C6_missing_url_and_fetch_failure_witness:
  "handler example_runtime (example_event []) =
     (\<lparr>statusCode = 400, headers = [],
       body = ''Missing url parameter. Usage: /.netlify/functions/proxy?url=https://example.com'',
       isBase64Encoded = False\<rparr>, [])
   \<and> statusCode (fst (handler example_runtime (example_event ''http://down.example/''))) = 500
   \<and> body (fst (handler example_runtime (example_event ''http://down.example/'')))
       = ''Proxy function error: network timeout''
   \<and> proxy_route example_runtime [] (example_request []) example_response
       = (\<lparr>res_status = 400, res_set_calls = [], res_body = Sent ''Missing url parameter''\<rparr>, [])
   \<and> fst (proxy_route example_runtime [] (example_request ''http://x.com/down'') example_response)
       = \<lparr>res_status = 502, res_set_calls = [], res_body = Sent ''Bad gateway''\<rparr>"
proof -
  have m: "or_else (map_of (case queryStringParameters (example_event []) of None \<Rightarrow> [] | Some q \<Rightarrow> q)
             ''url'') [] = []"
    by code_simp
  have v: "valid_target (example_event ''http://down.example/'') ''http://down.example/''"
    by code_simp
  have f: "fetch example_runtime ''http://down.example/''
      (or_else (map_of (event_headers (example_event ''http://down.example/'')) ''user-agent'')
         ''SleekProxy-Netlify/1.0'') = Inl (JsError ''FetchError'' ''network timeout'')"
    by code_simp
  have q: "or_else (query_url (example_request [])) [] = []"
    by code_simp
  have a: "authorized example_runtime [] (example_request ''http://x.com/down'')
      \<lparr>protocol = ''http:'', hostname = ''x.com'', origin = ''http://x.com'', href = ''http://x.com/down''\<rparr>"
    by code_simp
  have g: "fetch example_runtime
      (href \<lparr>protocol = ''http:'', hostname = ''x.com'', origin = ''http://x.com'', href = ''http://x.com/down''\<rparr>)
      (or_else (user_agent (example_request ''http://x.com/down'')) ''OmniProxy/1.0'')
      = Inl (JsError ''FetchError'' ''network timeout'')"
    by code_simp
  show ?thesis
    using C6_missing_url_and_fetch_failure
        [of "example_event []" example_runtime "example_event ''http://down.example/''"
          "''http://down.example/''" "JsError ''FetchError'' ''network timeout''"
          "example_request []" "[]" example_response "example_request ''http://x.com/down''"
          "\<lparr>protocol = ''http:'', hostname = ''x.com'', origin = ''http://x.com'', href = ''http://x.com/down''\<rparr>"
          "JsError ''FetchError'' ''network timeout''"]
      m v f q a g
    by (simp add: example_response_def)
qed

text \<open>The claim as stated fails on the Netlify function: a rejected \<open>fetch\<close> gives
  status 500, not 502.\<close>

theorem C6_netlify_fetch_failure_counterexample:
  "fetch example_runtime ''http://down.example/'' ''UA/1'' = Inl (JsError ''FetchError'' ''network timeout'')
   \<and> handler example_runtime (example_event ''http://down.example/'')
       = (\<lparr>statusCode = 500, headers = [], body = ''Proxy function error: network timeout'',
           isBase64Encoded = False\<rparr>, [(''http://down.example/'', ''UA/1'')])
   \<and> statusCode (fst (handler example_runtime (example_event ''http://down.example/''))) \<noteq> 502"
  by code_simp

text \<open>
  Claim C7. For every accepted target and every upstream response with a non-zero status
  whose content type, lower-cased, contains \<open>text/html\<close> (a 404 page is one such
  response), both variants of the function return the upstream status, the header
  \<open>Content-Type: text/html; charset=utf-8\<close> and, as body, the serialisation of the
  rewritten document with the banner. The rewritten document is the parsed upstream
  body without its CSP meta elements, every element of which is rewritten: the href of
  each anchor and link and the src of each element are passed through
  \<open>resolveAndProxy\<close>, and no CSP meta element is left.
\<close>

theorem C7_html_status_and_rewrite:
  "(valid_target event target
     \<and> fetch rt target (or_else (map_of (event_headers event) ''user-agent'') ''SleekProxy-Netlify/1.0'') = Inr up
     \<and> includes_str (toLowerCase (or_else (headers_get (up_headers up) ''content-type'') [])) ''text/html''
     \<and> up_status up \<noteq> 0
    \<longrightarrow> fst (handler rt event) =
          \<lparr>statusCode = up_status up,
           headers = [(''Content-Type'', ''text/html; charset=utf-8'')],
           body = cheerio_html rt (add_topbar (cheerio_parse rt (topbar target))
                    (rewrite_document (URL_toString rt) (attr_value_eq rt) target
                       (cheerio_load rt (response_text rt (up_body up))))),
           isBase64Encoded = False\<rparr>
        \<and> forest_rel (rewritten (URL_toString rt) target)
             (remove (sel_meta_csp (attr_value_eq rt)) (cheerio_load rt (response_text rt (up_body up))))
             (rewrite_document (URL_toString rt) (attr_value_eq rt) target
                (cheerio_load rt (response_text rt (up_body up))))
        \<and> concat (map (select (sel_meta_csp (attr_value_eq rt)))
               (rewrite_document (URL_toString rt) (attr_value_eq rt) target
                  (cheerio_load rt (response_text rt (up_body up))))) = [])
   \<and> (valid_target event target
     \<and> fetch rt target (or_else (map_of (event_headers event) ''user-agent'') ''SleekProxy/1.0'') = Inr up
     \<and> includes_str (toLowerCase (or_else (headers_get (up_headers up) ''content-type'') [])) ''text/html''
     \<and> up_status up \<noteq> 0
    \<longrightarrow> fst (handler_cjs rt event) =
          \<lparr>statusCode = up_status up,
           headers = [(''Content-Type'', ''text/html; charset=utf-8'')],
           body = cheerio_html rt (map (prepend sel_body (cheerio_parse rt (topbar_cjs target)))
                    (rewrite_document_cjs (URL_toString rt) (attr_value_eq rt) target
                       (cheerio_load rt (response_text rt (up_body up))))),
           isBase64Encoded = False\<rparr>
        \<and> forest_rel (rewritten_cjs (URL_toString rt) target)
             (remove (sel_meta_csp (attr_value_eq rt)) (cheerio_load rt (response_text rt (up_body up))))
             (rewrite_document_cjs (URL_toString rt) (attr_value_eq rt) target
                (cheerio_load rt (response_text rt (up_body up))))
        \<and> concat (map (select (sel_meta_csp (attr_value_eq rt)))
               (rewrite_document_cjs (URL_toString rt) (attr_value_eq rt) target
                  (cheerio_load rt (response_text rt (up_body up))))) = [])"
proof (intro conjI impI)
  assume a: "valid_target event target
     \<and> fetch rt target (or_else (map_of (event_headers event) ''user-agent'') ''SleekProxy-Netlify/1.0'') = Inr up
     \<and> includes_str (toLowerCase (or_else (headers_get (up_headers up) ''content-type'') [])) ''text/html''
     \<and> up_status up \<noteq> 0"
  then show "fst (handler rt event) =
          \<lparr>statusCode = up_status up,
           headers = [(''Content-Type'', ''text/html; charset=utf-8'')],
           body = cheerio_html rt (add_topbar (cheerio_parse rt (topbar target))
                    (rewrite_document (URL_toString rt) (attr_value_eq rt) target
                       (cheerio_load rt (response_text rt (up_body up))))),
           isBase64Encoded = False\<rparr>"
    by (simp add: handler_fetched [of event target rt up])
  show "forest_rel (rewritten (URL_toString rt) target)
             (remove (sel_meta_csp (attr_value_eq rt)) (cheerio_load rt (response_text rt (up_body up))))
             (rewrite_document (URL_toString rt) (attr_value_eq rt) target
                (cheerio_load rt (response_text rt (up_body up))))"
    by (rule rewrite_document_rewritten)
  show "concat (map (select (sel_meta_csp (attr_value_eq rt)))
               (rewrite_document (URL_toString rt) (attr_value_eq rt) target
                  (cheerio_load rt (response_text rt (up_body up))))) = []"
    by (rule no_csp_meta_left(1))
next
  assume a: "valid_target event target
     \<and> fetch rt target (or_else (map_of (event_headers event) ''user-agent'') ''SleekProxy/1.0'') = Inr up
     \<and> includes_str (toLowerCase (or_else (headers_get (up_headers up) ''content-type'') [])) ''text/html''
     \<and> up_status up \<noteq> 0"
  then show "fst (handler_cjs rt event) =
          \<lparr>statusCode = up_status up,
           headers = [(''Content-Type'', ''text/html; charset=utf-8'')],
           body = cheerio_html rt (map (prepend sel_body (cheerio_parse rt (topbar_cjs target)))
                    (rewrite_document_cjs (URL_toString rt) (attr_value_eq rt) target
                       (cheerio_load rt (response_text rt (up_body up))))),
           isBase64Encoded = False\<rparr>"
    by (simp add: handler_cjs_fetched [of event target rt up])
  show "forest_rel (rewritten_cjs (URL_toString rt) target)
             (remove (sel_meta_csp (attr_value_eq rt)) (cheerio_load rt (response_text rt (up_body up))))
             (rewrite_document_cjs (URL_toString rt) (attr_value_eq rt) target
                (cheerio_load rt (response_text rt (up_body up))))"
    by (rule rewrite_document_cjs_rewritten)
  show "concat (map (select (sel_meta_csp (attr_value_eq rt)))
               (rewrite_document_cjs (URL_toString rt) (attr_value_eq rt) target
                  (cheerio_load rt (response_text rt (up_body up))))) = []"
    by (rule no_csp_meta_left(2))
qed

theorem C7_html_status_and_rewrite_witness:
  \<open>up_status example_page = 404
   \<and> fst (handler example_runtime (example_event ''http://x.com/c/'')) =
       \<lparr>statusCode = 404, headers = [(''Content-Type'', ''text/html; charset=utf-8'')],
        body =
          ''<html><head><link rel="stylesheet" href="/.netlify/functions/proxy?url=http%3A%2F%2Fx.com%2Fc%2Fs.css"></link></head><body>''
          @ topbar ''http://x.com/c/''
          @ ''<a href="/.netlify/functions/proxy?url=http%3A%2F%2Fx.com%2Fa%2Fb" rel="noreferrer noopener">next</a>''
          @ ''<a href=""></a><a href="http://[" rel="noreferrer noopener"></a>''
          @ ''<img src="data:image/png;base64,AAAA"></img></body></html>'',
        isBase64Encoded = False\<rparr>
   \<and> fst (handler_cjs example_runtime (example_event ''http://x.com/c/'')) =
       \<lparr>statusCode = 404, headers = [(''Content-Type'', ''text/html; charset=utf-8'')],
        body =
          ''<html><head><link rel="stylesheet" href="/.netlify/functions/proxy?url=http%3A%2F%2Fx.com%2Fc%2Fs.css"></link></head><body>''
          @ topbar_cjs ''http://x.com/c/''
          @ ''<a href="/.netlify/functions/proxy?url=http%3A%2F%2Fx.com%2Fa%2Fb">next</a>''
          @ ''<a href=""></a><a href="http://[" rel="x"></a>''
          @ ''<img src="data:image/png;base64,AAAA"></img></body></html>'',
        isBase64Encoded = False\<rparr>
   \<and> forest_rel (rewritten example_URL_toString ''http://x.com/c/'')
        (remove (sel_meta_csp (=)) example_document)
        (rewrite_document example_URL_toString (=) ''http://x.com/c/'' example_document)\<close>
proof -
  have v: "valid_target (example_event ''http://x.com/c/'') ''http://x.com/c/''"
    by code_simp
  have f: "fetch example_runtime ''http://x.com/c/''
      (or_else (map_of (event_headers (example_event ''http://x.com/c/'')) ''user-agent'') ''SleekProxy-Netlify/1.0'')
      = Inr example_page"
    by code_simp
  have f': "fetch example_runtime ''http://x.com/c/''
      (or_else (map_of (event_headers (example_event ''http://x.com/c/'')) ''user-agent'') ''SleekProxy/1.0'')
      = Inr example_page"
    by code_simp
  have h: "includes_str (toLowerCase (or_else (headers_get (up_headers example_page) ''content-type'') []))
      ''text/html''"
    by code_simp
  have s: "up_status example_page = 404"
    by (simp add: example_page_def)
  have z: "up_status example_page \<noteq> 0"
    by (simp add: example_page_def)
  have r: "URL_toString example_runtime = example_URL_toString" "attr_value_eq example_runtime = (=)"
    "cheerio_load example_runtime (response_text example_runtime (up_body example_page)) = example_document"
    by (simp_all add: example_runtime_def)
  have b: \<open>cheerio_html example_runtime (add_topbar (cheerio_parse example_runtime (topbar ''http://x.com/c/''))
        (rewrite_document example_URL_toString (=) ''http://x.com/c/'' example_document))
      = ''<html><head><link rel="stylesheet" href="/.netlify/functions/proxy?url=http%3A%2F%2Fx.com%2Fc%2Fs.css"></link></head><body>''
          @ topbar ''http://x.com/c/''
          @ ''<a href="/.netlify/functions/proxy?url=http%3A%2F%2Fx.com%2Fa%2Fb" rel="noreferrer noopener">next</a>''
          @ ''<a href=""></a><a href="http://[" rel="noreferrer noopener"></a>''
          @ ''<img src="data:image/png;base64,AAAA"></img></body></html>''\<close>
    by code_simp
  have b': \<open>cheerio_html example_runtime (map (prepend sel_body (cheerio_parse example_runtime (topbar_cjs ''http://x.com/c/'')))
        (rewrite_document_cjs example_URL_toString (=) ''http://x.com/c/'' example_document))
      = ''<html><head><link rel="stylesheet" href="/.netlify/functions/proxy?url=http%3A%2F%2Fx.com%2Fc%2Fs.css"></link></head><body>''
          @ topbar_cjs ''http://x.com/c/''
          @ ''<a href="/.netlify/functions/proxy?url=http%3A%2F%2Fx.com%2Fa%2Fb">next</a>''
          @ ''<a href=""></a><a href="http://[" rel="x"></a>''
          @ ''<img src="data:image/png;base64,AAAA"></img></body></html>''\<close>
    by code_simp
  note t = C7_html_status_and_rewrite [of "example_event ''http://x.com/c/''" "''http://x.com/c/''"
        example_runtime example_page, unfolded r]
  from t v f h z have 1: "fst (handler example_runtime (example_event ''http://x.com/c/'')) =
          \<lparr>statusCode = up_status example_page,
           headers = [(''Content-Type'', ''text/html; charset=utf-8'')],
           body = cheerio_html example_runtime (add_topbar (cheerio_parse example_runtime (topbar ''http://x.com/c/''))
                    (rewrite_document example_URL_toString (=) ''http://x.com/c/'' example_document)),
           isBase64Encoded = False\<rparr>"
    and 3: "forest_rel (rewritten example_URL_toString ''http://x.com/c/'')
        (remove (sel_meta_csp (=)) example_document)
        (rewrite_document example_URL_toString (=) ''http://x.com/c/'' example_document)"
    by blast+
  from t v f' h z have 2: "fst (handler_cjs example_runtime (example_event ''http://x.com/c/'')) =
          \<lparr>statusCode = up_status example_page,
           headers = [(''Content-Type'', ''text/html; charset=utf-8'')],
           body = cheerio_html example_runtime (map (prepend sel_body (cheerio_parse example_runtime (topbar_cjs ''http://x.com/c/'')))
                    (rewrite_document_cjs example_URL_toString (=) ''http://x.com/c/'' example_document)),
           isBase64Encoded = False\<rparr>"
    by blast
  show ?thesis unfolding 1 2 b b' s using 3 by simp
qed

text \<open>
  Claim C9. For every upstream response whose content type, lower-cased, does not contain
  \<open>text/html\<close>: the Netlify function returns the upstream status (when it is not zero)
  and a body marked as base64 whose decoding is the upstream body, byte for byte; the
  route of server.js sets the upstream status and pipes the upstream body unchanged.
\<close>

theorem C9_body_bytes_unchanged:
  "(valid_target event target
     \<and> fetch rt target (or_else (map_of (event_headers event) ''user-agent'') ''SleekProxy-Netlify/1.0'') = Inr up
     \<and> \<not> includes_str (toLowerCase (or_else (headers_get (up_headers up) ''content-type'') [])) ''text/html''
     \<and> up_status up \<noteq> 0
    \<longrightarrow> statusCode (fst (handler rt event)) = up_status up
        \<and> isBase64Encoded (fst (handler rt event))
        \<and> base64_decode (body (fst (handler rt event))) = Some (up_body up))
   \<and> (authorized rt AL req u
     \<and> fetch rt (href u) (or_else (user_agent req) ''OmniProxy/1.0'') = Inr up
     \<and> \<not> includes_str (toLowerCase (or_else (headers_get (up_headers up) ''content-type'') [])) ''text/html''
    \<longrightarrow> res_status (fst (proxy_route rt AL req res)) = up_status up
        \<and> res_body (fst (proxy_route rt AL req res)) = Piped (up_body up))"
proof (intro conjI impI)
  assume a: "valid_target event target
     \<and> fetch rt target (or_else (map_of (event_headers event) ''user-agent'') ''SleekProxy-Netlify/1.0'') = Inr up
     \<and> \<not> includes_str (toLowerCase (or_else (headers_get (up_headers up) ''content-type'') [])) ''text/html''
     \<and> up_status up \<noteq> 0"
  then have h: "fst (handler rt event) =
      \<lparr>statusCode = up_status up,
       headers = [(''Content-Type'',
                   if or_else (headers_get (up_headers up) ''content-type'') [] = []
                   then ''application/octet-stream''
                   else or_else (headers_get (up_headers up) ''content-type'') []),
                  (''Cache-Control'', ''max-age=3600'')],
       body = base64 (up_body up), isBase64Encoded = True\<rparr>"
    by (simp add: handler_fetched [of event target rt up])
  show "statusCode (fst (handler rt event)) = up_status up" by (simp add: h)
  show "isBase64Encoded (fst (handler rt event))" by (simp add: h)
  show "base64_decode (body (fst (handler rt event))) = Some (up_body up)"
    by (simp add: h base64_roundtrip)
next
  assume a: "authorized rt AL req u
     \<and> fetch rt (href u) (or_else (user_agent req) ''OmniProxy/1.0'') = Inr up
     \<and> \<not> includes_str (toLowerCase (or_else (headers_get (up_headers up) ''content-type'') [])) ''text/html''"
  then have "\<not> includes_str (or_else (headers_get (up_headers up) ''content-type'') []) ''text/html''"
    using includes_lower by blast
  with a have h: "fst (proxy_route rt AL req res) =
      res\<lparr>res_status := up_status up,
          res_set_calls := res_set_calls res
             @ filter (\<lambda>h. toLowerCase (fst h) \<notin> set banned) (up_headers up),
          res_body := Piped (up_body up)\<rparr>"
    by (simp add: proxy_route_fetched [of rt AL req u up])
  show "res_status (fst (proxy_route rt AL req res)) = up_status up" by (simp add: h)
  show "res_body (fst (proxy_route rt AL req res)) = Piped (up_body up)" by (simp add: h)
qed

theorem C9_body_bytes_unchanged_witness:
  "statusCode (fst (handler example_runtime (example_event ''http://x.com/logo.png''))) = 200
   \<and> isBase64Encoded (fst (handler example_runtime (example_event ''http://x.com/logo.png'')))
   \<and> base64_decode (body (fst (handler example_runtime (example_event ''http://x.com/logo.png''))))
       = Some [137, 80, 78, 71, 255]
   \<and> res_status (fst (proxy_route example_runtime [] (example_request ''http://x.com/logo.png'')
         example_response)) = 200
   \<and> res_body (fst (proxy_route example_runtime [] (example_request ''http://x.com/logo.png'')
         example_response)) = Piped [137, 80, 78, 71, 255]"
proof -
  have v: "valid_target (example_event ''http://x.com/logo.png'') ''http://x.com/logo.png''"
    by code_simp
  have f: "fetch example_runtime ''http://x.com/logo.png''
      (or_else (map_of (event_headers (example_event ''http://x.com/logo.png'')) ''user-agent'')
         ''SleekProxy-Netlify/1.0'') = Inr example_image"
    by code_simp
  have a: "authorized example_runtime [] (example_request ''http://x.com/logo.png'')
      \<lparr>protocol = ''http:'', hostname = ''x.com'', origin = ''http://x.com'', href = ''http://x.com/logo.png''\<rparr>"
    by code_simp
  have g: "fetch example_runtime
      (href \<lparr>protocol = ''http:'', hostname = ''x.com'', origin = ''http://x.com'', href = ''http://x.com/logo.png''\<rparr>)
      (or_else (user_agent (example_request ''http://x.com/logo.png'')) ''OmniProxy/1.0'') = Inr example_image"
    by code_simp
  have h: "\<not> includes_str (toLowerCase (or_else (headers_get (up_headers example_image) ''content-type'') []))
      ''text/html''"
    by code_simp
  have s: "up_status example_image = 200" "up_body example_image = [137, 80, 78, 71, 255]"
    by (simp_all add: example_image_def)
  have z: "up_status example_image \<noteq> 0"
    by (simp add: example_image_def)
  note t = C9_body_bytes_unchanged [of "example_event ''http://x.com/logo.png''" "''http://x.com/logo.png''"
        example_runtime example_image "[]" "example_request ''http://x.com/logo.png''"
        "\<lparr>protocol = ''http:'', hostname = ''x.com'', origin = ''http://x.com'', href = ''http://x.com/logo.png''\<rparr>"
        example_response]
  from t v f h z have 1:
    "statusCode (fst (handler example_runtime (example_event ''http://x.com/logo.png''))) = up_status example_image
     \<and> isBase64Encoded (fst (handler example_runtime (example_event ''http://x.com/logo.png'')))
     \<and> base64_decode (body (fst (handler example_runtime (example_event ''http://x.com/logo.png''))))
         = Some (up_body example_image)"
    by blast
  from t a g h have 2:
    "res_status (fst (proxy_route example_runtime [] (example_request ''http://x.com/logo.png'')
         example_response)) = up_status example_image
     \<and> res_body (fst (proxy_route example_runtime [] (example_request ''http://x.com/logo.png'')
         example_response)) = Piped (up_body example_image)"
    by blast
  from 1 2 show ?thesis unfolding s by blast
qed

section \<open>Anchors of the rewritten document\<close>
















end
